theory Spec2Isabelle
  imports Main "HOL-Library.Char_ord" "HOL-Library.List_Lexorder"
begin

section \<open>JavaScript values and built-ins used by the session-bootstrap hook\<close>

text \<open>
  A JavaScript string is modelled as a \<^typ>\<open>string\<close>: one \<^typ>\<open>char\<close> per code unit.
  The default \<open>Array.prototype.sort\<close> orders strings lexicographically by code unit, a
  proper prefix first; that is the order of \<open>HOL-Library.List_Lexorder\<close> over
  \<open>HOL-Library.Char_ord\<close>.
\<close>

text \<open>\<open>xs.slice(start, fin)\<close> for arrays and strings alike, negative indices included.\<close>

definition js_slice :: "int \<Rightarrow> int \<Rightarrow> 'a list \<Rightarrow> 'a list" where
  "js_slice start fin xs =
     (let len = int (length xs);
          k = (if start < 0 then max (len + start) 0 else min start len);
          final = (if fin < 0 then max (len + fin) 0 else min fin len)
      in take (nat (final - k)) (drop (nat k) xs))"

text \<open>\<open>s.endsWith(search)\<close>.\<close>

definition js_endsWith :: "string \<Rightarrow> string \<Rightarrow> bool" where
  "js_endsWith s search =
     (length search \<le> length s \<and> drop (length s - length search) s = search)"

text \<open>
  The regular expressions of the hook are anchored sequences of single-character atoms:
  \<open>\d\<close> and literal characters. \<open>s.match(/^.../)\<close> is truthy iff the atoms match a prefix.
\<close>

datatype atom = Digit | Lit char

definition is_digit :: "char \<Rightarrow> bool" where
  "is_digit c = (c \<in> set ''0123456789'')"

fun match_atoms :: "atom list \<Rightarrow> string \<Rightarrow> bool" where
  "match_atoms [] s = True"
| "match_atoms (p # ps) [] = False"
| "match_atoms (Digit # ps) (c # s) = (is_digit c \<and> match_atoms ps s)"
| "match_atoms (Lit k # ps) (c # s) = (c = k \<and> match_atoms ps s)"

text \<open>\<open>/^\d{4}-\d{2}-\d{2}/\<close>\<close>

definition date_regex :: "atom list" where
  "date_regex =
     replicate 4 Digit @ [Lit CHR ''-''] @ replicate 2 Digit @ [Lit CHR ''-'']
       @ replicate 2 Digit"

text \<open>\<open>parts.join(sep)\<close> on an array of strings.\<close>

fun js_join :: "string list \<Rightarrow> string \<Rightarrow> string" where
  "js_join [] sep = []"
| "js_join [x] sep = x"
| "js_join (x # y # ys) sep = x @ sep @ js_join (y # ys) sep"

text \<open>\<open>s.split(sep)\<close> for a one-character separator: the pieces between the separators.\<close>

fun js_split :: "string \<Rightarrow> char \<Rightarrow> string list" where
  "js_split [] sep = [[]]"
| "js_split (c # s) sep =
     (if c = sep then [] # js_split s sep
      else (case js_split s sep of
              [] \<Rightarrow> [[c]]
            | piece # pieces \<Rightarrow> (c # piece) # pieces))"

text \<open>\<open>xs[i]\<close>: \<open>undefined\<close> (here \<open>None\<close>) out of range.\<close>

definition js_index :: "'a list \<Rightarrow> nat \<Rightarrow> 'a option" where
  "js_index xs i = (if i < length xs then Some (xs ! i) else None)"

section \<open>getRecentMemories: selection of the dated files (handler.ts, lines 29-33)\<close>

definition mdFiles :: "string list \<Rightarrow> int \<Rightarrow> string list" where
  "mdFiles files count =
     js_slice 0 count
       (rev (sort (filter (\<lambda>f. js_endsWith f ''.md'' \<and> match_atoms date_regex f) files)))"

section \<open>The world the hook runs in\<close>

text \<open>
  Values stored in an event's context. \<open>'c\<close> stands for the \<open>OpenClawConfig\<close> objects of
  the configuration module; the hook only passes them on.
\<close>

datatype 'c jsval = JUndefined | JNull | JBool bool | JNum int | JStr string | JObj 'c

text \<open>JavaScript truthiness, as used by \<open>||\<close>, \<open>?:\<close> and \<open>if\<close>.\<close>

fun js_truthy :: "'c jsval \<Rightarrow> bool" where
  "js_truthy JUndefined = False"
| "js_truthy JNull = False"
| "js_truthy (JBool b) = b"
| "js_truthy (JNum n) = (n \<noteq> 0)"
| "js_truthy (JStr s) = (s \<noteq> [])"
| "js_truthy (JObj c) = True"

text \<open>Truthiness of a \<open>string | null\<close>: \<open>null\<close> and the empty string are falsy.\<close>

fun str_truthy :: "string option \<Rightarrow> bool" where
  "str_truthy None = False"
| "str_truthy (Some s) = (s \<noteq> [])"

text \<open>
  A thrown value. \<open>String(err)\<close> is the text of an \<open>Exn\<close>. A value with no string form (an
  object without \<open>toString\<close>, such as \<open>Object.create(null)\<close>, or one whose \<open>toString\<close>
  throws) makes \<open>String(err)\<close> itself throw, a \<open>TypeError\<close> in the first case.
\<close>

datatype exn = Exn string | NoStringForm

fun String_of :: "exn \<Rightarrow> exn + string" where
  "String_of (Exn s) = Inr s"
| "String_of NoStringForm =
     Inl (Exn ''TypeError: Cannot convert object to primitive value'')"

text \<open>Records emitted through the subsystem logger.\<close>

datatype level = Debug | Info | Error

datatype logmeta =
    NoMeta
  | Loaded nat bool bool  \<comment> \<open>\<open>memoriesLoaded\<close>, \<open>hasProfile\<close>, \<open>hasContext\<close>\<close>
  | Preview string
  | Failure string

record logrec =
  lvl :: level
  msg :: string
  meta :: logmeta

datatype fsop = Readdir string | ReadFile string

text \<open>
  Objects live in a store: an object reference is an index into \<open>heap\<close>, so that the
  event's context, which the dispatcher and the other hooks share, is updated in place.
  \<open>logs\<close> is what the logger has received and \<open>fsTrace\<close> the file-system calls made so far.
\<close>

type_synonym 'c obj = "string \<rightharpoonup> 'c jsval"

record 'c world =
  heap :: "'c obj list"
  logs :: "logrec list"
  fsTrace :: "fsop list"

text \<open>The event handed over by the dispatcher; \<open>ev_context = None\<close> is \<open>null\<close>/\<open>undefined\<close>.\<close>

record HookEvent =
  ev_type :: string
  ev_action :: string
  ev_sessionKey :: string
  ev_context :: "nat option"

text \<open>
  The collaborators outside the hook: session-key routing, workspace and state directory
  resolution, \<open>node:path\<close> and \<open>node:fs/promises\<close>. Each may throw (\<open>Inl\<close>).
\<close>

record 'c env =
  resolveAgentIdFromSessionKey :: "string \<Rightarrow> exn + string"
  resolveAgentWorkspaceDir :: "'c jsval \<Rightarrow> string \<Rightarrow> exn + string"
  resolveStateDir :: "exn + string"
  path_join :: "string list \<Rightarrow> exn + string"
  readdir :: "string \<Rightarrow> exn + string list"
  readFile :: "string \<Rightarrow> exn + string"

definition log_emit :: "level \<Rightarrow> string \<Rightarrow> logmeta \<Rightarrow> 'c world \<Rightarrow> 'c world" where
  "log_emit l m d w = w\<lparr>logs := logs w @ [\<lparr>lvl = l, msg = m, meta = d\<rparr>]\<rparr>"

definition fs_note :: "fsop \<Rightarrow> 'c world \<Rightarrow> 'c world" where
  "fs_note op w = w\<lparr>fsTrace := fsTrace w @ [op]\<rparr>"

text \<open>\<open>o.key\<close>: \<open>undefined\<close> when the property is missing.\<close>

definition get_prop :: "'c world \<Rightarrow> nat \<Rightarrow> string \<Rightarrow> 'c jsval" where
  "get_prop w a key =
     (if a < length (heap w)
      then (case (heap w ! a) key of None \<Rightarrow> JUndefined | Some v \<Rightarrow> v)
      else JUndefined)"

text \<open>\<open>o.key = v\<close>\<close>

definition set_prop :: "nat \<Rightarrow> string \<Rightarrow> 'c jsval \<Rightarrow> 'c world \<Rightarrow> 'c world" where
  "set_prop a key v w =
     (if a < length (heap w) then w\<lparr>heap := (heap w)[a := (heap w ! a)(key \<mapsto> v)]\<rparr> else w)"

text \<open>\<open>{}\<close>: a fresh empty object; returns its reference.\<close>

definition new_object :: "'c world \<Rightarrow> nat \<times> 'c world" where
  "new_object w = (length (heap w), w\<lparr>heap := heap w @ [Map.empty]\<rparr>)"

section \<open>The memory readers\<close>

record MemoryEntry =
  date :: "string option"
  content :: string
  filename :: string

text \<open>
  The \<open>for\<close> loop of \<open>getRecentMemories\<close> (lines 36-40). A throw of \<open>path.join\<close> or
  \<open>fs.readFile\<close> leaves the loop.
\<close>

fun read_loop ::
  "'c env \<Rightarrow> string \<Rightarrow> string list \<Rightarrow> MemoryEntry list \<Rightarrow> 'c world
     \<Rightarrow> (exn + MemoryEntry list) \<times> 'c world" where
  "read_loop env memoryDir [] memories w = (Inr memories, w)"
| "read_loop env memoryDir (file # rest) memories w =
     (case path_join env [memoryDir, file] of
        Inl e \<Rightarrow> (Inl e, w)
      | Inr p \<Rightarrow>
          (case readFile env p of
             Inl e \<Rightarrow> (Inl e, fs_note (ReadFile p) w)
           | Inr text \<Rightarrow>
               read_loop env memoryDir rest
                 (memories @
                    [\<lparr>date = js_index (js_split file CHR ''-'') 0, content = text,
                      filename = file\<rparr>])
                 (fs_note (ReadFile p) w)))"

text \<open>\<open>getRecentMemories(memoryDir, count)\<close>; \<open>None\<close> for an omitted count.\<close>

definition getRecentMemories ::
  "'c env \<Rightarrow> string \<Rightarrow> int option \<Rightarrow> 'c world \<Rightarrow> MemoryEntry list \<times> 'c world" where
  "getRecentMemories env memoryDir count_arg w =
     (let count = (case count_arg of None \<Rightarrow> 3 | Some c \<Rightarrow> c) in
      case readdir env memoryDir of
        Inl e \<Rightarrow> ([], fs_note (Readdir memoryDir) w)
      | Inr files \<Rightarrow>
          (case read_loop env memoryDir (mdFiles files count) []
                  (fs_note (Readdir memoryDir) w) of
             (Inl e, w') \<Rightarrow> ([], w')
           | (Inr memories, w') \<Rightarrow> (memories, w')))"

text \<open>
  \<open>getUserProfile\<close> and \<open>getActiveContext\<close> differ in the file name only; \<open>read_or_null\<close>
  is their common body.
\<close>

definition read_or_null ::
  "'c env \<Rightarrow> string \<Rightarrow> string \<Rightarrow> 'c world \<Rightarrow> string option \<times> 'c world" where
  "read_or_null env workspaceDir name w =
     (case path_join env [workspaceDir, ''memory'', name] of
        Inl e \<Rightarrow> (None, w)
      | Inr p \<Rightarrow>
          (case readFile env p of
             Inl e \<Rightarrow> (None, fs_note (ReadFile p) w)
           | Inr text \<Rightarrow> (Some text, fs_note (ReadFile p) w)))"

definition getUserProfile ::
  "'c env \<Rightarrow> string \<Rightarrow> 'c world \<Rightarrow> string option \<times> 'c world" where
  "getUserProfile env workspaceDir w = read_or_null env workspaceDir ''jeeves-profile.md'' w"

definition getActiveContext ::
  "'c env \<Rightarrow> string \<Rightarrow> 'c world \<Rightarrow> string option \<times> 'c world" where
  "getActiveContext env workspaceDir w = read_or_null env workspaceDir ''active-context.md'' w"

section \<open>Assembly of the context summary (lines 98-115)\<close>

text \<open>
  \<open>if (userProfile) contextParts.push(...)\<close>: \<open>null\<close> and the empty string are falsy.
\<close>

definition push_profile :: "string option \<Rightarrow> string list \<Rightarrow> string list" where
  "push_profile userProfile contextParts =
     (case userProfile of
        None \<Rightarrow> contextParts
      | Some s \<Rightarrow>
          if s \<noteq> []
          then contextParts @ [''## User Profile (Jeeves)'', js_slice 0 1000 s, []]
          else contextParts)"

text \<open>\<open>if (activeContext) contextParts.push(...)\<close>\<close>

definition push_active :: "string option \<Rightarrow> string list \<Rightarrow> string list" where
  "push_active activeContext contextParts =
     (case activeContext of
        None \<Rightarrow> contextParts
      | Some s \<Rightarrow>
          if s \<noteq> []
          then contextParts @ [''## Active Context'', js_slice 0 1000 s, []]
          else contextParts)"

text \<open>The inner \<open>for (const mem of recentMemories)\<close>.\<close>

fun push_entries :: "MemoryEntry list \<Rightarrow> string list \<Rightarrow> string list" where
  "push_entries [] contextParts = contextParts"
| "push_entries (mem # rest) contextParts =
     push_entries rest
       (contextParts @ [''### '' @ filename mem, js_slice 0 500 (content mem), []])"

definition push_recent :: "MemoryEntry list \<Rightarrow> string list \<Rightarrow> string list" where
  "push_recent recentMemories contextParts =
     (if length recentMemories > 0
      then push_entries recentMemories (contextParts @ [''## Recent Conversations''])
      else contextParts)"

definition contextParts_of ::
  "string option \<Rightarrow> string option \<Rightarrow> MemoryEntry list \<Rightarrow> string list" where
  "contextParts_of userProfile activeContext recentMemories =
     push_recent recentMemories (push_active activeContext (push_profile userProfile []))"

definition fullContext_of ::
  "string option \<Rightarrow> string option \<Rightarrow> MemoryEntry list \<Rightarrow> string" where
  "fullContext_of userProfile activeContext recentMemories =
     js_join (contextParts_of userProfile activeContext recentMemories) [CHR 0x0A]"

section \<open>The handler\<close>

text \<open>The workspace directory (lines 87-89): from the configuration when there is one.\<close>

definition resolve_workspaceDir :: "'c env \<Rightarrow> 'c jsval \<Rightarrow> string \<Rightarrow> exn + string" where
  "resolve_workspaceDir env cfg agentId =
     (if js_truthy cfg then resolveAgentWorkspaceDir env cfg agentId
      else (case resolveStateDir env of
              Inl e \<Rightarrow> Inl e
            | Inr stateDir \<Rightarrow> path_join env [stateDir, ''workspace'']))"

text \<open>\<open>event.context || {}\<close> (line 84): the event's own context, or a fresh local object.\<close>

definition context_or_new :: "HookEvent \<Rightarrow> 'c world \<Rightarrow> nat \<times> 'c world" where
  "context_or_new event w =
     (case ev_context event of Some a \<Rightarrow> (a, w) | None \<Rightarrow> new_object w)"

text \<open>The \<open>try\<close> block of \<open>bootstrapSession\<close> (lines 82-130).\<close>

definition try_block :: "'c env \<Rightarrow> HookEvent \<Rightarrow> 'c world \<Rightarrow> (exn + unit) \<times> 'c world" where
  "try_block env event w0 =
     (let w1 = log_emit Debug ''Session bootstrap: Loading memory context'' NoMeta w0;
          (ctx, w2) = context_or_new event w1;
          cfg = get_prop w2 ctx ''cfg''
      in case resolveAgentIdFromSessionKey env (ev_sessionKey event) of
           Inl e \<Rightarrow> (Inl e, w2)
         | Inr agentId \<Rightarrow>
        (case resolve_workspaceDir env cfg agentId of
           Inl e \<Rightarrow> (Inl e, w2)
         | Inr workspaceDir \<Rightarrow>
        (case path_join env [workspaceDir, ''memory''] of
           Inl e \<Rightarrow> (Inl e, w2)
         | Inr memoryDir \<Rightarrow>
        (let (recentMemories, w3) = getRecentMemories env memoryDir (Some 3) w2;
             (userProfile, w4) = getUserProfile env workspaceDir w3;
             (activeContext, w5) = getActiveContext env workspaceDir w4;
             fullContext = fullContext_of userProfile activeContext recentMemories;
             w6 = set_prop ctx ''memoryContext'' (JStr fullContext) w5;
             w7 = set_prop ctx ''hasMemory'' (JBool True) w6;
             w8 = log_emit Info ''Session bootstrapped with memory context''
                    (Loaded (length recentMemories) (str_truthy userProfile)
                       (str_truthy activeContext)) w7;
             w9 = log_emit Debug ''Memory context preview''
                    (Preview (js_slice 0 200 fullContext)) w8
         in (Inr (), w9)))))"

text \<open>
  \<open>bootstrapSession(event)\<close>: the outcome of the returned promise (\<open>Inl\<close> is a rejection)
  and the world afterwards. In the \<open>catch\<close> clause (line 132) the argument \<open>String(err)\<close> is
  evaluated before \<open>log.error\<close> is called and outside any \<open>try\<close>: when it throws, nothing is
  logged and the promise is rejected.
\<close>

definition bootstrapSession ::
  "'c env \<Rightarrow> HookEvent \<Rightarrow> 'c world \<Rightarrow> (exn + unit) \<times> 'c world" where
  "bootstrapSession env event w =
     (if ev_type event \<noteq> ''agent'' \<or> ev_action event \<noteq> ''bootstrap'' then (Inr (), w)
      else (case try_block env event w of
              (Inr u, w') \<Rightarrow> (Inr u, w')
            | (Inl err, w') \<Rightarrow>
                (case String_of err of
                   Inl thrown \<Rightarrow> (Inl thrown, w')
                 | Inr s \<Rightarrow>
                     (Inr (), log_emit Error ''Failed to bootstrap session memory''
                                (Failure s) w'))))"

section \<open>Example worlds\<close>

text \<open>
  A file system given by its directory listings and file contents; everything else is
  missing (\<open>ENOENT\<close>). Paths are joined with \<open>/\<close>, the state directory is \<open>/state\<close>.
\<close>

definition example_env :: "(string \<times> string list) list \<Rightarrow> (string \<times> string) list \<Rightarrow> unit env" where
  "example_env dirs files =
     \<lparr>resolveAgentIdFromSessionKey = (\<lambda>key. Inr ''main''),
      resolveAgentWorkspaceDir = (\<lambda>cfg agentId. Inr ''/ws''),
      resolveStateDir = Inr ''/state'',
      path_join = (\<lambda>segments. Inr (js_join segments ''/'')),
      readdir = (\<lambda>d. case map_of dirs d of
                         None \<Rightarrow> Inl (Exn ''ENOENT'') | Some names \<Rightarrow> Inr names),
      readFile = (\<lambda>p. case map_of files p of
                          None \<Rightarrow> Inl (Exn ''ENOENT'') | Some text \<Rightarrow> Inr text)\<rparr>"

definition example_event :: "nat option \<Rightarrow> HookEvent" where
  "example_event c =
     \<lparr>ev_type = ''agent'', ev_action = ''bootstrap'', ev_sessionKey = ''agent:main:main'',
      ev_context = c\<rparr>"

definition example_world :: "unit world" where
  "example_world = \<lparr>heap = [Map.empty], logs = [], fsTrace = []\<rparr>"

section \<open>Facts about the built-ins and the assembly\<close>

lemma js_slice_prefix: "0 \<le> n \<Longrightarrow> js_slice 0 n xs = take (nat n) xs"
  unfolding js_slice_def Let_def by (cases "n \<le> int (length xs)") (simp_all add: min_def)

lemma js_slice_is_prefix: "\<exists>k. js_slice 0 n xs = take k xs"
  unfolding js_slice_def Let_def by auto

lemma js_endsWith_iff: "js_endsWith s t \<longleftrightarrow> (\<exists>stem. s = stem @ t)"
proof
  assume h: "js_endsWith s t"
  then have "s = take (length s - length t) s @ t"
    by (metis append_take_drop_id js_endsWith_def)
  then show "\<exists>stem. s = stem @ t" ..
next
  assume "\<exists>stem. s = stem @ t"
  then show "js_endsWith s t" by (auto simp: js_endsWith_def)
qed

lemma match_atoms_Cons:
  "match_atoms (p # ps) s \<longleftrightarrow>
     (\<exists>c t. s = c # t \<and> (case p of Digit \<Rightarrow> is_digit c | Lit k \<Rightarrow> c = k) \<and> match_atoms ps t)"
  by (cases s; cases p) auto

lemma date_regex_unfold:
  "date_regex = [Digit, Digit, Digit, Digit, Lit CHR ''-'', Digit, Digit, Lit CHR ''-'', Digit, Digit]"
  by (simp add: date_regex_def eval_nat_numeral)

lemma match_date_intro:
  assumes "set [y1, y2, y3, y4, m1, m2, d1, d2] \<subseteq> set ''0123456789''"
  shows "match_atoms date_regex ([y1, y2, y3, y4, CHR ''-'', m1, m2, CHR ''-'', d1, d2] @ rest)"
  using assms unfolding date_regex_unfold by (simp add: is_digit_def)

lemma match_date_elim:
  assumes "match_atoms date_regex f"
  shows "\<exists>y1 y2 y3 y4 m1 m2 d1 d2 rest.
        f = [y1, y2, y3, y4, CHR ''-'', m1, m2, CHR ''-'', d1, d2] @ rest \<and>
        set [y1, y2, y3, y4, m1, m2, d1, d2] \<subseteq> set ''0123456789''"
proof -
  from assms obtain y1 y2 y3 y4 t4 where
    f4: "f = y1 # y2 # y3 # y4 # t4" and d4: "is_digit y1" "is_digit y2" "is_digit y3" "is_digit y4"
    and r4: "match_atoms [Lit CHR ''-'', Digit, Digit, Lit CHR ''-'', Digit, Digit] t4"
    unfolding date_regex_unfold by (auto simp: match_atoms_Cons)
  from r4 obtain m1 m2 t7 where
    f7: "t4 = CHR ''-'' # m1 # m2 # t7" and d7: "is_digit m1" "is_digit m2"
    and r7: "match_atoms [Lit CHR ''-'', Digit, Digit] t7"
    by (auto simp: match_atoms_Cons)
  from r7 obtain d1 d2 rest where
    f10: "t7 = CHR ''-'' # d1 # d2 # rest" and d10: "is_digit d1" "is_digit d2"
    by (auto simp: match_atoms_Cons)
  have "f = [y1, y2, y3, y4, CHR ''-'', m1, m2, CHR ''-'', d1, d2] @ rest"
    using f4 f7 f10 by simp
  moreover have "set [y1, y2, y3, y4, m1, m2, d1, d2] \<subseteq> set ''0123456789''"
    using d4 d7 d10 unfolding is_digit_def by simp
  ultimately show ?thesis by blast
qed

lemma push_entries_eq:
  "push_entries ms acc =
     acc @ concat (map (\<lambda>m. [''### '' @ filename m, take 500 (content m), []]) ms)"
  by (induction ms arbitrary: acc) (simp_all add: js_slice_prefix)

lemma contextParts_closed:
  "contextParts_of p a ms =
     (case p of None \<Rightarrow> [] | Some s \<Rightarrow>
        if s = [] then [] else [''## User Profile (Jeeves)'', take 1000 s, []]) @
     (case a of None \<Rightarrow> [] | Some s \<Rightarrow>
        if s = [] then [] else [''## Active Context'', take 1000 s, []]) @
     (if ms = [] then []
      else ''## Recent Conversations'' #
             concat (map (\<lambda>m. [''### '' @ filename m, take 500 (content m), []]) ms))"
  by (simp add: contextParts_of_def push_recent_def push_active_def push_profile_def
      push_entries_eq js_slice_prefix split: option.splits)

section \<open>Facts about the store and the readers\<close>

lemma heap_log_emit [simp]: "heap (log_emit l m d w) = heap w"
  by (simp add: log_emit_def)

lemma heap_fs_note [simp]: "heap (fs_note op w) = heap w"
  by (simp add: fs_note_def)

lemma get_prop_heap_cong: "heap w = heap w' \<Longrightarrow> get_prop w a k = get_prop w' a k"
  by (simp add: get_prop_def)

lemma heap_set_prop:
  "heap (set_prop a k v w) =
     (if a < length (heap w) then (heap w)[a := (heap w ! a)(k \<mapsto> v)] else heap w)"
  by (simp add: set_prop_def)

lemma heap_read_loop: "heap (snd (read_loop env d fs acc w)) = heap w"
  by (induction fs arbitrary: acc w) (auto split: sum.splits)

lemma fst_read_loop_indep: "fst (read_loop env d fs acc w) = fst (read_loop env d fs acc w')"
  by (induction fs arbitrary: acc w w') (auto split: sum.splits)

lemma heap_getRecentMemories: "heap (snd (getRecentMemories env d c w)) = heap w"
proof (cases "readdir env d")
  case (Inl e)
  then show ?thesis by (simp add: getRecentMemories_def)
next
  case (Inr files)
  let ?r = "read_loop env d (mdFiles files (case c of None \<Rightarrow> 3 | Some k \<Rightarrow> k)) []
              (fs_note (Readdir d) w)"
  have "heap (snd ?r) = heap w" by (simp add: heap_read_loop)
  then show ?thesis using Inr
    by (cases ?r) (auto simp: getRecentMemories_def Let_def split: sum.splits)
qed

lemma fst_getRecentMemories_indep:
  "fst (getRecentMemories env d c w) = fst (getRecentMemories env d c w')"
proof (cases "readdir env d")
  case (Inl e)
  then show ?thesis by (simp add: getRecentMemories_def)
next
  case (Inr files)
  let ?fs = "mdFiles files (case c of None \<Rightarrow> 3 | Some k \<Rightarrow> k)"
  have "fst (read_loop env d ?fs [] (fs_note (Readdir d) w))
        = fst (read_loop env d ?fs [] (fs_note (Readdir d) w'))"
    by (rule fst_read_loop_indep)
  then show ?thesis using Inr
    by (cases "read_loop env d ?fs [] (fs_note (Readdir d) w)";
        cases "read_loop env d ?fs [] (fs_note (Readdir d) w')")
       (auto simp: getRecentMemories_def Let_def split: sum.splits)
qed

lemma heap_read_or_null: "heap (snd (read_or_null env ws name w)) = heap w"
  by (simp add: read_or_null_def split: sum.splits)

lemma fst_read_or_null:
  "fst (read_or_null env ws name w) =
     (case path_join env [ws, ''memory'', name] of
        Inl e \<Rightarrow> None
      | Inr p \<Rightarrow> (case readFile env p of Inl e \<Rightarrow> None | Inr t \<Rightarrow> Some t))"
  by (simp add: read_or_null_def split: sum.splits)

lemma fst_context_or_new_log [simp]:
  "fst (context_or_new ev (log_emit l m d w)) = fst (context_or_new ev w)"
  by (simp add: context_or_new_def new_object_def split: option.splits)

lemma heap_context_or_new_log [simp]:
  "heap (snd (context_or_new ev (log_emit l m d w))) = heap (snd (context_or_new ev w))"
  by (simp add: context_or_new_def new_object_def split: option.splits)

lemma heap_context_or_new:
  "heap (snd (context_or_new ev w)) =
     (case ev_context ev of Some a \<Rightarrow> heap w | None \<Rightarrow> heap w @ [Map.empty])"
  by (simp add: context_or_new_def new_object_def split: option.splits)

lemma fst_context_or_new:
  "fst (context_or_new ev w) = (case ev_context ev of Some a \<Rightarrow> a | None \<Rightarrow> length (heap w))"
  by (simp add: context_or_new_def new_object_def split: option.splits)

lemma try_block_failure:
  assumes "fst (try_block env ev w) = Inl e"
  shows "heap (snd (try_block env ev w)) = heap (snd (context_or_new ev w))"
  using assms
  by (auto simp: try_block_def Let_def case_prod_beta split: sum.splits)

lemma heap_getUserProfile [simp]: "heap (snd (getUserProfile env ws w)) = heap w"
  by (simp add: getUserProfile_def heap_read_or_null)

lemma heap_getActiveContext [simp]: "heap (snd (getActiveContext env ws w)) = heap w"
  by (simp add: getActiveContext_def heap_read_or_null)

lemma fst_getUserProfile_indep:
  "fst (getUserProfile env ws w) = fst (getUserProfile env ws w')"
  by (simp add: getUserProfile_def fst_read_or_null)

lemma fst_getActiveContext_indep:
  "fst (getActiveContext env ws w) = fst (getActiveContext env ws w')"
  by (simp add: getActiveContext_def fst_read_or_null)

lemma get_prop_context_or_new_log [simp]:
  "get_prop (snd (context_or_new ev (log_emit l m d w))) a k =
   get_prop (snd (context_or_new ev w)) a k"
  by (simp add: get_prop_def)

lemma heap_set_prop_cong:
  "heap w = heap w' \<Longrightarrow> heap (set_prop a k v w) = heap (set_prop a k v w')"
  by (simp add: set_prop_def)

lemma try_block_resolved:
  assumes "resolveAgentIdFromSessionKey env (ev_sessionKey ev) = Inr agentId"
    and "resolve_workspaceDir env
           (get_prop (snd (context_or_new ev w)) (fst (context_or_new ev w)) ''cfg'') agentId = Inr ws"
    and "path_join env [ws, ''memory''] = Inr md"
  shows "fst (try_block env ev w) = Inr ()"
    and "heap (snd (try_block env ev w)) =
           heap (set_prop (fst (context_or_new ev w)) ''hasMemory'' (JBool True)
                  (set_prop (fst (context_or_new ev w)) ''memoryContext''
                     (JStr (fullContext_of (fst (getUserProfile env ws w))
                              (fst (getActiveContext env ws w))
                              (fst (getRecentMemories env md (Some 3) w))))
                     (snd (context_or_new ev w))))"
proof -
  let ?w1 = "log_emit Debug ''Session bootstrap: Loading memory context'' NoMeta w"
  let ?w2 = "snd (context_or_new ev ?w1)"
  let ?w3 = "snd (getRecentMemories env md (Some 3) ?w2)"
  let ?w4 = "snd (getUserProfile env ws ?w3)"
  let ?w5 = "snd (getActiveContext env ws ?w4)"
  have rm: "fst (getRecentMemories env md (Some 3) ?w2) = fst (getRecentMemories env md (Some 3) w)"
    by (rule fst_getRecentMemories_indep)
  have up: "fst (getUserProfile env ws ?w3) = fst (getUserProfile env ws w)"
    by (rule fst_getUserProfile_indep)
  have ac: "fst (getActiveContext env ws ?w4) = fst (getActiveContext env ws w)"
    by (rule fst_getActiveContext_indep)
  have h5: "heap ?w5 = heap (snd (context_or_new ev w))"
    by (simp add: heap_getRecentMemories)
  show "fst (try_block env ev w) = Inr ()"
    using assms by (simp add: try_block_def Let_def case_prod_beta)
  have "heap (snd (try_block env ev w)) =
          heap (set_prop (fst (context_or_new ev w)) ''hasMemory'' (JBool True)
                  (set_prop (fst (context_or_new ev w)) ''memoryContext''
                     (JStr (fullContext_of (fst (getUserProfile env ws w))
                              (fst (getActiveContext env ws w))
                              (fst (getRecentMemories env md (Some 3) w)))) ?w5))"
    using assms by (simp add: try_block_def Let_def case_prod_beta rm up ac)
  also have "\<dots> = heap (set_prop (fst (context_or_new ev w)) ''hasMemory'' (JBool True)
                  (set_prop (fst (context_or_new ev w)) ''memoryContext''
                     (JStr (fullContext_of (fst (getUserProfile env ws w))
                              (fst (getActiveContext env ws w))
                              (fst (getRecentMemories env md (Some 3) w))))
                     (snd (context_or_new ev w))))"
    by (intro heap_set_prop_cong h5)
  finally show "heap (snd (try_block env ev w)) =
           heap (set_prop (fst (context_or_new ev w)) ''hasMemory'' (JBool True)
                  (set_prop (fst (context_or_new ev w)) ''memoryContext''
                     (JStr (fullContext_of (fst (getUserProfile env ws w))
                              (fst (getActiveContext env ws w))
                              (fst (getRecentMemories env md (Some 3) w))))
                     (snd (context_or_new ev w))))" .
qed

lemma try_block_completes:
  assumes "fst (try_block env ev w) = Inr u"
  shows "\<exists>agentId ws md.
           resolveAgentIdFromSessionKey env (ev_sessionKey ev) = Inr agentId \<and>
           resolve_workspaceDir env
             (get_prop (snd (context_or_new ev w)) (fst (context_or_new ev w)) ''cfg'') agentId = Inr ws \<and>
           path_join env [ws, ''memory''] = Inr md"
  using assms
  by (auto simp: try_block_def Let_def case_prod_beta split: sum.splits)

lemma match_date_iff:
  "match_atoms date_regex f \<longleftrightarrow>
     (\<exists>y1 y2 y3 y4 m1 m2 d1 d2 rest.
        f = [y1, y2, y3, y4, CHR ''-'', m1, m2, CHR ''-'', d1, d2] @ rest \<and>
        set [y1, y2, y3, y4, m1, m2, d1, d2] \<subseteq> set ''0123456789'')"
proof
  assume "match_atoms date_regex f"
  then show "\<exists>y1 y2 y3 y4 m1 m2 d1 d2 rest.
        f = [y1, y2, y3, y4, CHR ''-'', m1, m2, CHR ''-'', d1, d2] @ rest \<and>
        set [y1, y2, y3, y4, m1, m2, d1, d2] \<subseteq> set ''0123456789''"
    by (rule match_date_elim)
next
  assume "\<exists>y1 y2 y3 y4 m1 m2 d1 d2 rest.
        f = [y1, y2, y3, y4, CHR ''-'', m1, m2, CHR ''-'', d1, d2] @ rest \<and>
        set [y1, y2, y3, y4, m1, m2, d1, d2] \<subseteq> set ''0123456789''"
  then obtain y1 y2 y3 y4 m1 m2 d1 d2 rest where
    f: "f = [y1, y2, y3, y4, CHR ''-'', m1, m2, CHR ''-'', d1, d2] @ rest" and
    d: "set [y1, y2, y3, y4, m1, m2, d1, d2] \<subseteq> set ''0123456789''"
    by blast
  show "match_atoms date_regex f"
    unfolding f using d by (rule match_date_intro)
qed

lemma mdFiles_descending: "sorted_wrt (\<lambda>x y. y \<le> x) (mdFiles files n)"
proof -
  let ?xs = "filter (\<lambda>f. js_endsWith f ''.md'' \<and> match_atoms date_regex f) files"
  obtain k where m: "js_slice 0 n (rev (sort ?xs)) = take k (rev (sort ?xs))"
    using js_slice_is_prefix[of n "rev (sort ?xs)"] by blast
  have "sorted_wrt (\<lambda>x y. y \<le> x) (rev (sort ?xs))"
    by (simp add: sorted_wrt_rev)
  then have "sorted_wrt (\<lambda>x y. y \<le> x) (take k (rev (sort ?xs)))"
    by (rule sorted_wrt_take)
  then show ?thesis by (simp add: mdFiles_def m)
qed

lemma bootstrapSession_admitted:
  assumes "ev_type ev = ''agent''" and "ev_action ev = ''bootstrap''"
  shows "fst (try_block env ev w) = Inr u \<Longrightarrow>
           bootstrapSession env ev w = (Inr (), snd (try_block env ev w))"
    and "fst (try_block env ev w) = Inl e \<Longrightarrow> String_of e = Inr s \<Longrightarrow>
           bootstrapSession env ev w =
             (Inr (), log_emit Error ''Failed to bootstrap session memory'' (Failure s)
                        (snd (try_block env ev w)))"
    and "fst (try_block env ev w) = Inl e \<Longrightarrow> String_of e = Inl e' \<Longrightarrow>
           bootstrapSession env ev w = (Inl e', snd (try_block env ev w))"
  using assms
  by (cases "try_block env ev w"; simp add: bootstrapSession_def)+

lemma bootstrapSession_heap:
  assumes "ev_type ev = ''agent''" and "ev_action ev = ''bootstrap''"
  shows "heap (snd (bootstrapSession env ev w)) = heap (snd (try_block env ev w))"
proof (cases "try_block env ev w")
  case (Pair r w')
  then show ?thesis using assms
    by (cases r; cases "String_of (projl r)")
       (auto simp: bootstrapSession_def split: sum.splits)
qed

text \<open>
  What the \<open>catch\<close> clause does achieve: when every value the \<open>try\<close> block can throw has a
  string form, the handler does not reject; and whether it rejects or not, a throw of the
  \<open>try\<close> block leaves every object as it was after line 84.
\<close>

lemma handler_catches_printable:
  assumes "ev_type ev = ''agent''" and "ev_action ev = ''bootstrap''"
    and "\<forall>e. fst (try_block env ev w) = Inl e \<longrightarrow> (\<exists>s. String_of e = Inr s)"
  shows "fst (bootstrapSession env ev w) = Inr ()"
proof (cases "fst (try_block env ev w)")
  case (Inl e)
  then obtain s where s: "String_of e = Inr s" using assms(3) by blast
  show ?thesis using bootstrapSession_admitted(2)[OF assms(1,2) Inl s] by simp
next
  case (Inr u)
  show ?thesis using bootstrapSession_admitted(1)[OF assms(1,2) Inr] by simp
qed

lemma handler_failure_frame:
  assumes "ev_type ev = ''agent''" and "ev_action ev = ''bootstrap''"
    and "fst (try_block env ev w) = Inl e"
  shows "take (length (heap w)) (heap (snd (bootstrapSession env ev w))) = heap w"
    and "ev_context ev \<noteq> None \<Longrightarrow> heap (snd (bootstrapSession env ev w)) = heap w"
    and "String_of e = Inr s \<Longrightarrow>
           last (logs (snd (bootstrapSession env ev w))) =
             \<lparr>lvl = Error, msg = ''Failed to bootstrap session memory'', meta = Failure s\<rparr>"
proof -
  have h: "heap (snd (bootstrapSession env ev w)) = heap (snd (context_or_new ev w))"
    using bootstrapSession_heap[OF assms(1,2), of env w] try_block_failure[OF assms(3)] by simp
  show "take (length (heap w)) (heap (snd (bootstrapSession env ev w))) = heap w"
    unfolding h by (simp add: heap_context_or_new split: option.splits)
  show "heap (snd (bootstrapSession env ev w)) = heap w" if "ev_context ev \<noteq> None"
    unfolding h using that by (auto simp: heap_context_or_new)
  show "last (logs (snd (bootstrapSession env ev w))) =
             \<lparr>lvl = Error, msg = ''Failed to bootstrap session memory'', meta = Failure s\<rparr>"
    if "String_of e = Inr s"
    using bootstrapSession_admitted(2)[OF assms that] by (simp add: log_emit_def)
qed

section \<open>Facts about publishing and the readers' results\<close>

lemma get_prop_set_prop_same:
  "a < length (heap w) \<Longrightarrow> get_prop (set_prop a k v w) a k = v"
  by (simp add: get_prop_def set_prop_def)

lemma get_prop_set_prop_other:
  "k' \<noteq> k \<Longrightarrow> get_prop (set_prop a k v w) a k' = get_prop w a k'"
  by (simp add: get_prop_def set_prop_def)

lemma length_heap_set_prop [simp]: "length (heap (set_prop a k v w)) = length (heap w)"
  by (simp add: set_prop_def)

lemma published_props:
  assumes "c < length (heap w)"
  shows "get_prop (set_prop c ''hasMemory'' (JBool True) (set_prop c ''memoryContext'' (JStr s) w))
           c ''hasMemory'' = JBool True"
    and "get_prop (set_prop c ''hasMemory'' (JBool True) (set_prop c ''memoryContext'' (JStr s) w))
           c ''memoryContext'' = JStr s"
  using assms by (simp_all add: get_prop_set_prop_same get_prop_set_prop_other)

lemma published_prefix:
  assumes "n \<le> c"
  shows "take n (heap (set_prop c k2 v2 (set_prop c k1 v1 w))) = take n (heap w)"
  using assms by (simp add: set_prop_def)

lemma handler_publishes:
  assumes "ev_type ev = ''agent''" and "ev_action ev = ''bootstrap''"
    and "ev_context ev = Some a" and "a < length (heap w)"
    and "resolveAgentIdFromSessionKey env (ev_sessionKey ev) = Inr agentId"
    and "resolve_workspaceDir env (get_prop w a ''cfg'') agentId = Inr ws"
    and "path_join env [ws, ''memory''] = Inr md"
  shows "fst (try_block env ev w) = Inr ()"
    and "get_prop (snd (bootstrapSession env ev w)) a ''hasMemory'' = JBool True"
    and "get_prop (snd (bootstrapSession env ev w)) a ''memoryContext'' =
           JStr (fullContext_of (fst (getUserProfile env ws w)) (fst (getActiveContext env ws w))
                   (fst (getRecentMemories env md (Some 3) w)))"
proof -
  let ?s = "fullContext_of (fst (getUserProfile env ws w)) (fst (getActiveContext env ws w))
              (fst (getRecentMemories env md (Some 3) w))"
  have c: "fst (context_or_new ev w) = a" and w2: "snd (context_or_new ev w) = w"
    using assms(3) by (simp_all add: context_or_new_def)
  have b: "resolve_workspaceDir env
             (get_prop (snd (context_or_new ev w)) (fst (context_or_new ev w)) ''cfg'') agentId
           = Inr ws"
    using assms(6) by (simp add: c w2)
  show t: "fst (try_block env ev w) = Inr ()"
    by (rule try_block_resolved(1)[OF assms(5) b assms(7)])
  have s: "snd (bootstrapSession env ev w) = snd (try_block env ev w)"
    using bootstrapSession_admitted(1)[OF assms(1,2) t] by simp
  have h: "heap (snd (bootstrapSession env ev w)) =
             heap (set_prop a ''hasMemory'' (JBool True) (set_prop a ''memoryContext'' (JStr ?s) w))"
    unfolding s using try_block_resolved(2)[OF assms(5) b assms(7)] by (simp add: c w2)
  show "get_prop (snd (bootstrapSession env ev w)) a ''hasMemory'' = JBool True"
    using published_props(1)[OF assms(4), of ?s] get_prop_heap_cong[OF h] by simp
  show "get_prop (snd (bootstrapSession env ev w)) a ''memoryContext'' = JStr ?s"
    using published_props(2)[OF assms(4), of ?s] get_prop_heap_cong[OF h] by simp
qed

lemma getRecentMemories_no_listing:
  "readdir env d = Inl e \<Longrightarrow> fst (getRecentMemories env d c w) = []"
  by (simp add: getRecentMemories_def)

lemma fst_getUserProfile:
  "fst (getUserProfile env ws w) =
     (case path_join env [ws, ''memory'', ''jeeves-profile.md''] of
        Inl e \<Rightarrow> None
      | Inr p \<Rightarrow> (case readFile env p of Inl e \<Rightarrow> None | Inr t \<Rightarrow> Some t))"
  by (simp add: getUserProfile_def fst_read_or_null)

lemma fst_getActiveContext:
  "fst (getActiveContext env ws w) =
     (case path_join env [ws, ''memory'', ''active-context.md''] of
        Inl e \<Rightarrow> None
      | Inr p \<Rightarrow> (case readFile env p of Inl e \<Rightarrow> None | Inr t \<Rightarrow> Some t))"
  by (simp add: getActiveContext_def fst_read_or_null)

lemma fullContext_nothing: "fullContext_of None None [] = []"
  by (simp add: fullContext_of_def contextParts_closed)

lemma js_join_section:
  "js_join ([h, t, []] @ rest) sep = h @ sep @ t @ sep @ (if rest = [] then [] else sep @ js_join rest sep)"
  by (cases rest) simp_all

lemma fullContext_nonempty:
  assumes "str_truthy p \<or> str_truthy a"
  shows "fullContext_of p a ms \<noteq> []"
proof (cases "str_truthy p")
  case True
  then obtain s where p: "p = Some s" and s: "s \<noteq> []" by (cases p) auto
  obtain rest where "contextParts_of p a ms = [''## User Profile (Jeeves)'', take 1000 s, []] @ rest"
    using p s by (simp add: contextParts_closed)
  then show ?thesis by (simp add: fullContext_of_def js_join_section del: append.simps)
next
  case False
  then have pe: "(case p of None \<Rightarrow> [] | Some s \<Rightarrow>
        if s = [] then [] else [''## User Profile (Jeeves)'', take 1000 s, []]) = []"
    by (cases p) auto
  from False assms obtain s where a: "a = Some s" and s: "s \<noteq> []" by (cases a) auto
  obtain rest where "contextParts_of p a ms = [''## Active Context'', take 1000 s, []] @ rest"
    using a s pe by (simp add: contextParts_closed)
  then show ?thesis by (simp add: fullContext_of_def js_join_section del: append.simps)
qed



lemma read_loop_filenames:
  "fst (read_loop env d fs acc w) = Inr ms \<Longrightarrow> map filename ms = map filename acc @ fs"
proof (induction fs arbitrary: acc w)
  case Nil
  then show ?case by simp
next
  case (Cons g rest)
  then show ?case by (auto split: sum.splits)
qed

lemma getRecentMemories_filenames:
  "map filename (fst (getRecentMemories env d c w)) = [] \<or>
   (\<exists>files. map filename (fst (getRecentMemories env d c w))
      = mdFiles files (case c of None \<Rightarrow> 3 | Some k \<Rightarrow> k))"
proof (cases "readdir env d")
  case (Inl e)
  then show ?thesis by (simp add: getRecentMemories_def)
next
  case (Inr files)
  let ?sel = "mdFiles files (case c of None \<Rightarrow> 3 | Some k \<Rightarrow> k)"
  let ?r = "read_loop env d ?sel [] (fs_note (Readdir d) w)"
  show ?thesis
  proof (cases "fst ?r")
    case (Inl e)
    then have "fst (getRecentMemories env d c w) = []"
      using Inr by (cases ?r) (simp add: getRecentMemories_def)
    then show ?thesis by simp
  next
    case r: (Inr ms)
    then have "fst (getRecentMemories env d c w) = ms"
      using Inr by (cases ?r) (simp add: getRecentMemories_def)
    moreover have "map filename ms = ?sel"
      using read_loop_filenames[OF r] by simp
    ultimately show ?thesis by auto
  qed
qed

lemma getRecentMemories_descending:
  "sorted_wrt (\<lambda>x y. filename y \<le> filename x) (fst (getRecentMemories env d c w))"
proof -
  have "sorted_wrt (\<lambda>x y. y \<le> x) (map filename (fst (getRecentMemories env d c w)))"
    using getRecentMemories_filenames[of env d c w] mdFiles_descending by (elim disjE exE) simp_all
  then show ?thesis by (simp add: sorted_wrt_map)
qed

section \<open>Facts about the entries that are read\<close>

lemma read_loop_readable:
  assumes "\<forall>f\<in>set fs. \<exists>p t. path_join env [d, f] = Inr p \<and> readFile env p = Inr t"
  shows "\<exists>new. fst (read_loop env d fs acc w) = Inr (acc @ new) \<and>
               map filename new = fs \<and>
               list_all2 (\<lambda>m f. \<exists>p. path_join env [d, f] = Inr p \<and>
                                   readFile env p = Inr (content m)) new fs"
  using assms
proof (induction fs arbitrary: acc w)
  case Nil
  then show ?case by simp
next
  case (Cons g rest)
  from Cons.prems obtain p t where
    g: "path_join env [d, g] = Inr p" "readFile env p = Inr t"
    by auto
  let ?m = "\<lparr>date = js_index (js_split g CHR ''-'') 0, content = t, filename = g\<rparr>"
  from Cons.prems have "\<forall>f\<in>set rest. \<exists>p t. path_join env [d, f] = Inr p \<and> readFile env p = Inr t"
    by simp
  from Cons.IH[OF this, of "acc @ [?m]" "fs_note (ReadFile p) w"] obtain new where
    n: "fst (read_loop env d rest (acc @ [?m]) (fs_note (ReadFile p) w)) = Inr ((acc @ [?m]) @ new)"
       "map filename new = rest"
       "list_all2 (\<lambda>m f. \<exists>p. path_join env [d, f] = Inr p \<and>
                         readFile env p = Inr (content m)) new rest"
    by blast
  have A: "fst (read_loop env d (g # rest) acc w) = Inr (acc @ (?m # new))"
    using g n(1) by simp
  have B: "map filename (?m # new) = g # rest" using n(2) by simp
  have C: "list_all2 (\<lambda>m f. \<exists>p. path_join env [d, f] = Inr p \<and>
                         readFile env p = Inr (content m)) (?m # new) (g # rest)"
    using g n(3) by simp
  show ?case
    by (rule exI[of _ "?m # new"], intro conjI) (rule A, rule B, rule C)
qed

lemma getRecentMemories_readable:
  assumes "readdir env d = Inr files"
    and "\<forall>f\<in>set (mdFiles files n).
           \<exists>p t. path_join env [d, f] = Inr p \<and> readFile env p = Inr t"
  shows "map filename (fst (getRecentMemories env d (Some n) w)) = mdFiles files n"
    and "list_all2 (\<lambda>m f. \<exists>p. path_join env [d, f] = Inr p \<and>
                              readFile env p = Inr (content m))
           (fst (getRecentMemories env d (Some n) w)) (mdFiles files n)"
proof -
  from read_loop_readable[OF assms(2), of "[]" "fs_note (Readdir d) w"] obtain new where
    n: "fst (read_loop env d (mdFiles files n) [] (fs_note (Readdir d) w)) = Inr new"
       "map filename new = mdFiles files n"
       "list_all2 (\<lambda>m f. \<exists>p. path_join env [d, f] = Inr p \<and>
                         readFile env p = Inr (content m)) new (mdFiles files n)"
    by auto
  have "fst (getRecentMemories env d (Some n) w) = new"
    using assms(1) n(1)
    by (cases "read_loop env d (mdFiles files n) [] (fs_note (Readdir d) w)")
       (simp add: getRecentMemories_def)
  then show "map filename (fst (getRecentMemories env d (Some n) w)) = mdFiles files n"
    and "list_all2 (\<lambda>m f. \<exists>p. path_join env [d, f] = Inr p \<and>
                              readFile env p = Inr (content m))
           (fst (getRecentMemories env d (Some n) w)) (mdFiles files n)"
    using n(2,3) by simp_all
qed

lemma js_split_head: "\<exists>rest. js_split f sep = takeWhile (\<lambda>c. c \<noteq> sep) f # rest"
  by (induction f) (auto split: list.splits)

lemma js_split_first: "js_index (js_split f sep) 0 = Some (takeWhile (\<lambda>c. c \<noteq> sep) f)"
proof -
  obtain rest where "js_split f sep = takeWhile (\<lambda>c. c \<noteq> sep) f # rest"
    using js_split_head by blast
  then show ?thesis by (simp add: js_index_def)
qed

lemma read_loop_dates:
  assumes "fst (read_loop env d fs acc w) = Inr ms"
    and "\<forall>m\<in>set acc. date m = Some (takeWhile (\<lambda>c. c \<noteq> CHR ''-'') (filename m))"
  shows "\<forall>m\<in>set ms. date m = Some (takeWhile (\<lambda>c. c \<noteq> CHR ''-'') (filename m))"
  using assms
proof (induction fs arbitrary: acc w)
  case Nil
  then show ?case by simp
next
  case (Cons g rest)
  from Cons.prems(1) obtain p t where
    g: "path_join env [d, g] = Inr p" "readFile env p = Inr t"
    by (auto split: sum.splits)
  let ?m = "\<lparr>date = js_index (js_split g CHR ''-'') 0, content = t, filename = g\<rparr>"
  have 1: "fst (read_loop env d rest (acc @ [?m]) (fs_note (ReadFile p) w)) = Inr ms"
    using Cons.prems(1) g by simp
  have 2: "\<forall>m\<in>set (acc @ [?m]). date m = Some (takeWhile (\<lambda>c. c \<noteq> CHR ''-'') (filename m))"
    using Cons.prems(2) by (simp add: js_split_first)
  from Cons.IH[OF 1 2] show ?case .
qed

lemma getRecentMemories_dates:
  "\<forall>m\<in>set (fst (getRecentMemories env d c w)).
     date m = Some (takeWhile (\<lambda>ch. ch \<noteq> CHR ''-'') (filename m))"
proof (cases "readdir env d")
  case (Inl e)
  then show ?thesis by (simp add: getRecentMemories_def)
next
  case (Inr files)
  let ?sel = "mdFiles files (case c of None \<Rightarrow> 3 | Some k \<Rightarrow> k)"
  let ?r = "read_loop env d ?sel [] (fs_note (Readdir d) w)"
  show ?thesis
  proof (cases "fst ?r")
    case (Inl e)
    then have "fst (getRecentMemories env d c w) = []"
      using Inr by (cases ?r) (simp add: getRecentMemories_def)
    then show ?thesis by simp
  next
    case r: (Inr ms)
    then have "fst (getRecentMemories env d c w) = ms"
      using Inr by (cases ?r) (simp add: getRecentMemories_def)
    moreover have "\<forall>m\<in>set ms. date m = Some (takeWhile (\<lambda>ch. ch \<noteq> CHR ''-'') (filename m))"
      using read_loop_dates[OF r] by simp
    ultimately show ?thesis by simp
  qed
qed

lemma mdFiles_dated: "f \<in> set (mdFiles files n) \<Longrightarrow> match_atoms date_regex f"
proof -
  let ?xs = "filter (\<lambda>f. js_endsWith f ''.md'' \<and> match_atoms date_regex f) files"
  assume a: "f \<in> set (mdFiles files n)"
  obtain k where "js_slice 0 n (rev (sort ?xs)) = take k (rev (sort ?xs))"
    using js_slice_is_prefix[of n "rev (sort ?xs)"] by blast
  then have "f \<in> set (take k (rev (sort ?xs)))" using a by (simp add: mdFiles_def)
  then have "f \<in> set (rev (sort ?xs))" by (rule in_set_takeD)
  then show ?thesis by simp
qed

lemma digit_not_dash: "c \<in> set ''0123456789'' \<Longrightarrow> c \<noteq> CHR ''-''"
  by auto

lemma dated_year: "match_atoms date_regex f \<Longrightarrow> takeWhile (\<lambda>c. c \<noteq> CHR ''-'') f = take 4 f"
proof -
  assume "match_atoms date_regex f"
  then obtain y1 y2 y3 y4 m1 m2 d1 d2 rest where
    f: "f = [y1, y2, y3, y4, CHR ''-'', m1, m2, CHR ''-'', d1, d2] @ rest" and
    d: "set [y1, y2, y3, y4, m1, m2, d1, d2] \<subseteq> set ''0123456789''"
    using match_date_elim by blast
  have "y1 \<noteq> CHR ''-''" "y2 \<noteq> CHR ''-''" "y3 \<noteq> CHR ''-''" "y4 \<noteq> CHR ''-''"
    by (rule digit_not_dash, rule subsetD[OF d], simp)+
  then show ?thesis unfolding f by simp
qed

lemma read_loop_not_readable:
  assumes "f \<in> set fs"
    and "\<forall>p t. path_join env [d, f] = Inr p \<longrightarrow> readFile env p \<noteq> Inr t"
  shows "\<exists>e'. fst (read_loop env d fs acc w) = Inl e'"
  using assms
proof (induction fs arbitrary: acc w)
  case Nil
  then show ?case by simp
next
  case (Cons g rest)
  show ?case
  proof (cases "g = f")
    case True
    show ?thesis
    proof (cases "path_join env [d, g]")
      case (Inl e)
      then show ?thesis by simp
    next
      case p: (Inr p)
      then have "\<forall>t. readFile env p \<noteq> Inr t" using Cons.prems(2) True by simp
      then obtain e where "readFile env p = Inl e" by (cases "readFile env p") auto
      then show ?thesis using p by simp
    qed
  next
    case False
    then have "f \<in> set rest" using Cons.prems(1) by simp
    from Cons.IH[OF this Cons.prems(2)] show ?thesis
      by (auto split: sum.splits)
  qed
qed

lemma getRecentMemories_fails:
  assumes "(\<exists>e. readdir env d = Inl e) \<or>
           (\<exists>files f. readdir env d = Inr files \<and> f \<in> set (mdFiles files c) \<and>
              (\<forall>p t. path_join env [d, f] = Inr p \<longrightarrow> readFile env p \<noteq> Inr t))"
  shows "fst (getRecentMemories env d (Some c) w) = []"
  using assms
proof (elim disjE exE conjE)
  fix e assume "readdir env d = Inl e"
  then show ?thesis by (rule getRecentMemories_no_listing)
next
  fix files f
  assume l: "readdir env d = Inr files" and f: "f \<in> set (mdFiles files c)"
    and u: "\<forall>p t. path_join env [d, f] = Inr p \<longrightarrow> readFile env p \<noteq> Inr t"
  obtain e' where "fst (read_loop env d (mdFiles files c) [] (fs_note (Readdir d) w)) = Inl e'"
    using read_loop_not_readable[OF f u] by blast
  then show ?thesis using l
    by (cases "read_loop env d (mdFiles files c) [] (fs_note (Readdir d) w)")
       (simp add: getRecentMemories_def)
qed

lemma fullContext_empty_iff:
  "fullContext_of p a [] = [] \<longleftrightarrow> \<not> str_truthy p \<and> \<not> str_truthy a"
proof
  assume "fullContext_of p a [] = []"
  then show "\<not> str_truthy p \<and> \<not> str_truthy a"
    using fullContext_nonempty[of p a "[]"] by blast
next
  assume n: "\<not> str_truthy p \<and> \<not> str_truthy a"
  then have "contextParts_of p a [] = []"
    by (cases p; cases a) (auto simp: contextParts_closed)
  then show "fullContext_of p a [] = []" by (simp add: fullContext_of_def)
qed

section \<open>The event filter and the failure boundary\<close>

text \<open>
  Claim C8. An event whose type is not \<open>agent\<close> or whose action is not \<open>bootstrap\<close> is
  rejected at once: the handler returns with the world exactly as it found it, so no
  file-system call is made, no log record is emitted and no context is touched.
\<close>

theorem rejected_event_no_effect:
  assumes "ev_type ev \<noteq> ''agent'' \<or> ev_action ev \<noteq> ''bootstrap''"
  shows "bootstrapSession env ev w = (Inr (), w)
       \<and> fsTrace (snd (bootstrapSession env ev w)) = fsTrace w
       \<and> logs (snd (bootstrapSession env ev w)) = logs w
       \<and> heap (snd (bootstrapSession env ev w)) = heap w"
  using assms by (auto simp: bootstrapSession_def)

theorem rejected_event_no_effect_witness:
  "ev_type ((example_event (Some 0))\<lparr>ev_action := ''new''\<rparr>) = ''agent''
   \<and> ev_action ((example_event (Some 0))\<lparr>ev_action := ''new''\<rparr>) \<noteq> ''bootstrap''
   \<and> bootstrapSession (example_env [] []) ((example_event (Some 0))\<lparr>ev_action := ''new''\<rparr>)
       example_world = (Inr (), example_world)"
  using rejected_event_no_effect
    [of "(example_event (Some 0))\<lparr>ev_action := ''new''\<rparr>" "example_env [] []" example_world]
  by (simp add: example_event_def)



section \<open>Selection of the recent memories\<close>

text \<open>
  Claim C2. For a count \<open>n \<ge> 0\<close> the selection is the first \<open>n\<close> names of the listing
  that end in \<open>.md\<close> and start with four digits, a dash, two digits, a dash and two
  digits, in descending lexicographic order; an omitted count is 3. When the directory
  can be listed and the selected files can be read, \<open>getRecentMemories\<close> returns one entry
  per selected name, in that order, each with the content read from its file.
\<close>

theorem recent_memory_selection:
  assumes "0 \<le> n"
  shows "mdFiles files n =
           take (nat n) (rev (sort (filter
             (\<lambda>f. (\<exists>stem. f = stem @ ''.md'') \<and>
                  (\<exists>y1 y2 y3 y4 m1 m2 d1 d2 rest.
                     f = [y1, y2, y3, y4, CHR ''-'', m1, m2, CHR ''-'', d1, d2] @ rest \<and>
                     set [y1, y2, y3, y4, m1, m2, d1, d2] \<subseteq> set ''0123456789''))
             files)))
       \<and> sorted_wrt (\<lambda>x y. y \<le> x) (mdFiles files n)
       \<and> getRecentMemories env dir None w = getRecentMemories env dir (Some 3) w
       \<and> (readdir env dir = Inr files \<and>
          (\<forall>f\<in>set (mdFiles files n).
              \<exists>p t. path_join env [dir, f] = Inr p \<and> readFile env p = Inr t)
          \<longrightarrow> map filename (fst (getRecentMemories env dir (Some n) w)) = mdFiles files n
            \<and> list_all2 (\<lambda>m f. \<exists>p. path_join env [dir, f] = Inr p \<and>
                                    readFile env p = Inr (content m))
                 (fst (getRecentMemories env dir (Some n) w)) (mdFiles files n))"
proof -
  have "mdFiles files n =
          take (nat n) (rev (sort (filter
            (\<lambda>f. js_endsWith f ''.md'' \<and> match_atoms date_regex f) files)))"
    unfolding mdFiles_def using assms by (rule js_slice_prefix)
  then have 1: "mdFiles files n =
           take (nat n) (rev (sort (filter
             (\<lambda>f. (\<exists>stem. f = stem @ ''.md'') \<and>
                  (\<exists>y1 y2 y3 y4 m1 m2 d1 d2 rest.
                     f = [y1, y2, y3, y4, CHR ''-'', m1, m2, CHR ''-'', d1, d2] @ rest \<and>
                     set [y1, y2, y3, y4, m1, m2, d1, d2] \<subseteq> set ''0123456789''))
             files)))"
    by (simp only: js_endsWith_iff match_date_iff)
  have 2: "sorted_wrt (\<lambda>x y. y \<le> x) (mdFiles files n)"
    by (rule mdFiles_descending)
  have 3: "getRecentMemories env dir None w = getRecentMemories env dir (Some 3) w"
    by (simp add: getRecentMemories_def)
  have 4: "readdir env dir = Inr files \<and>
          (\<forall>f\<in>set (mdFiles files n).
              \<exists>p t. path_join env [dir, f] = Inr p \<and> readFile env p = Inr t)
          \<longrightarrow> map filename (fst (getRecentMemories env dir (Some n) w)) = mdFiles files n
            \<and> list_all2 (\<lambda>m f. \<exists>p. path_join env [dir, f] = Inr p \<and>
                                    readFile env p = Inr (content m))
                 (fst (getRecentMemories env dir (Some n) w)) (mdFiles files n)"
    using getRecentMemories_readable[of env dir files n w] by (intro impI conjI; elim conjE)
  show ?thesis by (intro conjI) (rule 1, rule 2, rule 3, rule 4)
qed

theorem recent_memory_selection_witness:
  "(0::int) \<le> 3
   \<and> mdFiles [''2024-01-01-a.md'', ''2024-03-15-b.md'', ''2024-02-10-c.md'', ''notes.txt''] 3 =
       [''2024-03-15-b.md'', ''2024-02-10-c.md'', ''2024-01-01-a.md'']
   \<and> readdir (example_env
         [(''/m'', [''2024-01-01-a.md'', ''2024-03-15-b.md'', ''2024-02-10-c.md'', ''notes.txt''])]
         [(''/m/2024-01-01-a.md'', ''A''), (''/m/2024-03-15-b.md'', ''B''),
          (''/m/2024-02-10-c.md'', ''C''), (''/m/notes.txt'', ''N'')]) ''/m''
       = Inr [''2024-01-01-a.md'', ''2024-03-15-b.md'', ''2024-02-10-c.md'', ''notes.txt'']
   \<and> map filename (fst (getRecentMemories (example_env
         [(''/m'', [''2024-01-01-a.md'', ''2024-03-15-b.md'', ''2024-02-10-c.md'', ''notes.txt''])]
         [(''/m/2024-01-01-a.md'', ''A''), (''/m/2024-03-15-b.md'', ''B''),
          (''/m/2024-02-10-c.md'', ''C''), (''/m/notes.txt'', ''N'')]) ''/m'' (Some 3)
         example_world))
       = [''2024-03-15-b.md'', ''2024-02-10-c.md'', ''2024-01-01-a.md'']
   \<and> map content (fst (getRecentMemories (example_env
         [(''/m'', [''2024-01-01-a.md'', ''2024-03-15-b.md'', ''2024-02-10-c.md'', ''notes.txt''])]
         [(''/m/2024-01-01-a.md'', ''A''), (''/m/2024-03-15-b.md'', ''B''),
          (''/m/2024-02-10-c.md'', ''C''), (''/m/notes.txt'', ''N'')]) ''/m'' None
         example_world))
       = [''B'', ''C'', ''A'']"
proof -
  let ?files = "[''2024-01-01-a.md'', ''2024-03-15-b.md'', ''2024-02-10-c.md'', ''notes.txt'']"
  let ?env = "example_env [(''/m'', ?files)]
         [(''/m/2024-01-01-a.md'', ''A''), (''/m/2024-03-15-b.md'', ''B''),
          (''/m/2024-02-10-c.md'', ''C''), (''/m/notes.txt'', ''N'')]"
  have s: "mdFiles ?files 3 = [''2024-03-15-b.md'', ''2024-02-10-c.md'', ''2024-01-01-a.md'']"
    by code_simp
  have l: "readdir ?env ''/m'' = Inr ?files"
    by (simp add: example_env_def)
  have r: "\<forall>f\<in>set (mdFiles ?files 3).
             \<exists>p t. path_join ?env [''/m'', f] = Inr p \<and> readFile ?env p = Inr t"
    unfolding s by (simp add: example_env_def)
  have c: "map content (fst (getRecentMemories ?env ''/m'' None example_world))
             = [''B'', ''C'', ''A'']"
    by code_simp
  have z: "(0::int) \<le> 3" by simp
  note T = recent_memory_selection[OF z, of ?files ?env "''/m''" example_world]
  have "readdir ?env ''/m'' = Inr ?files \<and>
          (\<forall>f\<in>set (mdFiles ?files 3).
              \<exists>p t. path_join ?env [''/m'', f] = Inr p \<and> readFile ?env p = Inr t)
          \<longrightarrow> map filename (fst (getRecentMemories ?env ''/m'' (Some 3) example_world))
                = mdFiles ?files 3
            \<and> list_all2 (\<lambda>m f. \<exists>p. path_join ?env [''/m'', f] = Inr p \<and>
                                    readFile ?env p = Inr (content m))
                 (fst (getRecentMemories ?env ''/m'' (Some 3) example_world)) (mdFiles ?files 3)"
    using T by (rule conjunct2[OF conjunct2[OF conjunct2]])
  then have "map filename (fst (getRecentMemories ?env ''/m'' (Some 3) example_world))
                = mdFiles ?files 3"
    using l r by (elim impE conjE, intro conjI)
  then have m: "map filename (fst (getRecentMemories ?env ''/m'' (Some 3) example_world))
                = [''2024-03-15-b.md'', ''2024-02-10-c.md'', ''2024-01-01-a.md'']"
    unfolding s .
  show ?thesis by (intro conjI) (rule z, rule s, rule l, rule m, rule c)
qed

section \<open>The date of an entry\<close>

text \<open>
  Against Claim C3 as stated: for the file \<open>2024-03-15-b.md\<close> the \<open>date\<close> of the entry is
  \<open>2024\<close>, not the prefix \<open>2024-03-15\<close>.
\<close>

theorem date_is_year_only:
  "map date (fst (getRecentMemories
      (example_env [(''/state/workspace/memory'', [''2024-03-15-b.md''])]
         [(''/state/workspace/memory/2024-03-15-b.md'', ''note'')])
      ''/state/workspace/memory'' None example_world)) = [Some ''2024'']
   \<and> map date (fst (getRecentMemories
      (example_env [(''/state/workspace/memory'', [''2024-03-15-b.md''])]
         [(''/state/workspace/memory/2024-03-15-b.md'', ''note'')])
      ''/state/workspace/memory'' None example_world)) \<noteq> [Some ''2024-03-15'']"
  by code_simp

text \<open>
  Claim C3, amended. The \<open>date\<close> of every entry that \<open>getRecentMemories\<close> returns is the
  text of its file name before the first dash (\<open>file.split("-")[0]\<close>), which for a
  selected file is its first four characters, the year.
\<close>

theorem entry_date_is_text_before_first_dash:
  "\<forall>m\<in>set (fst (getRecentMemories env d c w)).
     date m = Some (takeWhile (\<lambda>ch. ch \<noteq> CHR ''-'') (filename m)) \<and>
     date m = Some (take 4 (filename m))"
proof
  fix m assume m: "m \<in> set (fst (getRecentMemories env d c w))"
  then have 1: "date m = Some (takeWhile (\<lambda>ch. ch \<noteq> CHR ''-'') (filename m))"
    using getRecentMemories_dates by blast
  from m have "filename m \<in> set (map filename (fst (getRecentMemories env d c w)))" by simp
  moreover from m have "map filename (fst (getRecentMemories env d c w)) \<noteq> []" by auto
  ultimately obtain files where
    "filename m \<in> set (mdFiles files (case c of None \<Rightarrow> 3 | Some k \<Rightarrow> k))"
    using getRecentMemories_filenames[of env d c w] by metis
  then have "match_atoms date_regex (filename m)" by (rule mdFiles_dated)
  then have "takeWhile (\<lambda>ch. ch \<noteq> CHR ''-'') (filename m) = take 4 (filename m)"
    by (rule dated_year)
  with 1 show "date m = Some (takeWhile (\<lambda>ch. ch \<noteq> CHR ''-'') (filename m)) \<and>
     date m = Some (take 4 (filename m))" by simp
qed

theorem entry_date_is_text_before_first_dash_witness:
  "fst (getRecentMemories
      (example_env [(''/state/workspace/memory'', [''2024-03-15-b.md''])]
         [(''/state/workspace/memory/2024-03-15-b.md'', ''note'')])
      ''/state/workspace/memory'' None example_world)
   = [\<lparr>date = Some ''2024'', content = ''note'', filename = ''2024-03-15-b.md''\<rparr>]
   \<and> Some ''2024'' = Some (take 4 ''2024-03-15-b.md'')"
proof -
  have r: "fst (getRecentMemories
      (example_env [(''/state/workspace/memory'', [''2024-03-15-b.md''])]
         [(''/state/workspace/memory/2024-03-15-b.md'', ''note'')])
      ''/state/workspace/memory'' None example_world)
   = [\<lparr>date = Some ''2024'', content = ''note'', filename = ''2024-03-15-b.md''\<rparr>]"
    by code_simp
  show ?thesis
    using r entry_date_is_text_before_first_dash
      [of "example_env [(''/state/workspace/memory'', [''2024-03-15-b.md''])]
         [(''/state/workspace/memory/2024-03-15-b.md'', ''note'')]"
       "''/state/workspace/memory''" None example_world]
    by simp
qed

section \<open>Publishing\<close>

text \<open>
  Claim C6. For an admitted event with a context: the handler does not reject as long as
  whatever the \<open>try\<close> block throws has a string form; whenever the \<open>try\<close> block completes,
  the handler completes and \<open>hasMemory\<close> is \<open>true\<close>; and when the workspace resolves but the
  memory directory cannot be listed and no file under it can be read, the handler
  completes with \<open>hasMemory = true\<close> and \<open>memoryContext\<close> the empty string.
\<close>

theorem missing_memory_directory:
  assumes "ev_type ev = ''agent''" and "ev_action ev = ''bootstrap''"
    and "ev_context ev = Some a" and "a < length (heap w)"
  shows "((\<forall>x. fst (try_block env ev w) = Inl x \<longrightarrow> (\<exists>s. String_of x = Inr s)) \<longrightarrow>
            fst (bootstrapSession env ev w) = Inr ())
       \<and> (fst (try_block env ev w) = Inr () \<longrightarrow>
            fst (bootstrapSession env ev w) = Inr ()
          \<and> get_prop (snd (bootstrapSession env ev w)) a ''hasMemory'' = JBool True)
       \<and> (\<forall>agentId ws md e.
            resolveAgentIdFromSessionKey env (ev_sessionKey ev) = Inr agentId \<and>
            resolve_workspaceDir env (get_prop w a ''cfg'') agentId = Inr ws \<and>
            path_join env [ws, ''memory''] = Inr md \<and>
            readdir env md = Inl e \<and>
            (\<forall>name p. path_join env [ws, ''memory'', name] = Inr p \<longrightarrow>
                       (\<exists>e'. readFile env p = Inl e'))
            \<longrightarrow> fst (bootstrapSession env ev w) = Inr ()
              \<and> fst (try_block env ev w) = Inr ()
              \<and> get_prop (snd (bootstrapSession env ev w)) a ''hasMemory'' = JBool True
              \<and> get_prop (snd (bootstrapSession env ev w)) a ''memoryContext'' = JStr [])"
proof (intro conjI allI impI)
  assume "\<forall>x. fst (try_block env ev w) = Inl x \<longrightarrow> (\<exists>s. String_of x = Inr s)"
  with assms(1,2) show "fst (bootstrapSession env ev w) = Inr ()"
    by (rule handler_catches_printable)
next
  assume t: "fst (try_block env ev w) = Inr ()"
  show "fst (bootstrapSession env ev w) = Inr ()"
    using bootstrapSession_admitted(1)[OF assms(1,2) t] by simp
  have c: "fst (context_or_new ev w) = a" and w2: "snd (context_or_new ev w) = w"
    using assms(3) by (simp_all add: context_or_new_def)
  from try_block_completes[OF t] obtain agentId ws md where
    "resolveAgentIdFromSessionKey env (ev_sessionKey ev) = Inr agentId"
    "resolve_workspaceDir env (get_prop w a ''cfg'') agentId = Inr ws"
    "path_join env [ws, ''memory''] = Inr md"
    unfolding c w2 by blast
  then show "get_prop (snd (bootstrapSession env ev w)) a ''hasMemory'' = JBool True"
    by (rule handler_publishes(2)[OF assms])
next
  fix agentId ws md e
  assume h: "resolveAgentIdFromSessionKey env (ev_sessionKey ev) = Inr agentId \<and>
            resolve_workspaceDir env (get_prop w a ''cfg'') agentId = Inr ws \<and>
            path_join env [ws, ''memory''] = Inr md \<and>
            readdir env md = Inl e \<and>
            (\<forall>name p. path_join env [ws, ''memory'', name] = Inr p \<longrightarrow>
                       (\<exists>e'. readFile env p = Inl e'))"
  then have r1: "resolveAgentIdFromSessionKey env (ev_sessionKey ev) = Inr agentId"
    and r2: "resolve_workspaceDir env (get_prop w a ''cfg'') agentId = Inr ws"
    and r3: "path_join env [ws, ''memory''] = Inr md"
    and r4: "readdir env md = Inl e"
    and r5: "\<And>name p. path_join env [ws, ''memory'', name] = Inr p \<Longrightarrow> \<exists>e'. readFile env p = Inl e'"
    by blast+
  have rm: "fst (getRecentMemories env md (Some 3) w) = []"
    using r4 by (rule getRecentMemories_no_listing)
  have up: "fst (getUserProfile env ws w) = None"
    using r5[of "''jeeves-profile.md''"] by (auto simp: fst_getUserProfile split: sum.splits)
  have ac: "fst (getActiveContext env ws w) = None"
    using r5[of "''active-context.md''"] by (auto simp: fst_getActiveContext split: sum.splits)
  show t: "fst (try_block env ev w) = Inr ()"
    by (rule handler_publishes(1)[OF assms r1 r2 r3])
  show "fst (bootstrapSession env ev w) = Inr ()"
    using bootstrapSession_admitted(1)[OF assms(1,2) t] by simp
  show "get_prop (snd (bootstrapSession env ev w)) a ''hasMemory'' = JBool True"
    by (rule handler_publishes(2)[OF assms r1 r2 r3])
  show "get_prop (snd (bootstrapSession env ev w)) a ''memoryContext'' = JStr []"
    using handler_publishes(3)[OF assms r1 r2 r3] by (simp add: rm up ac fullContext_nothing)
qed

theorem missing_memory_directory_witness:
  "ev_type (example_event (Some 0)) = ''agent''
   \<and> ev_action (example_event (Some 0)) = ''bootstrap''
   \<and> ev_context (example_event (Some 0)) = Some 0
   \<and> 0 < length (heap example_world)
   \<and> readdir (example_env [] []) ''/state/workspace/memory'' = Inl (Exn ''ENOENT'')
   \<and> fst (bootstrapSession (example_env [] []) (example_event (Some 0)) example_world) = Inr ()
   \<and> get_prop (snd (bootstrapSession (example_env [] []) (example_event (Some 0)) example_world))
        0 ''hasMemory'' = JBool True
   \<and> get_prop (snd (bootstrapSession (example_env [] []) (example_event (Some 0)) example_world))
        0 ''memoryContext'' = JStr []"
proof -
  have e: "ev_type (example_event (Some 0)) = ''agent''"
    "ev_action (example_event (Some 0)) = ''bootstrap''"
    "ev_context (example_event (Some 0)) = Some 0"
    "0 < length (heap example_world)"
    by (simp_all add: example_event_def example_world_def)
  have r: "resolveAgentIdFromSessionKey (example_env [] []) (ev_sessionKey (example_event (Some 0)))
             = Inr ''main'' \<and>
           resolve_workspaceDir (example_env [] []) (get_prop example_world 0 ''cfg'') ''main''
             = Inr ''/state/workspace'' \<and>
           path_join (example_env [] []) [''/state/workspace'', ''memory'']
             = Inr ''/state/workspace/memory'' \<and>
           readdir (example_env [] []) ''/state/workspace/memory'' = Inl (Exn ''ENOENT'') \<and>
           (\<forall>name p. path_join (example_env [] []) [''/state/workspace'', ''memory'', name] = Inr p
               \<longrightarrow> (\<exists>e'. readFile (example_env [] []) p = Inl e'))"
    by (simp add: example_env_def example_world_def get_prop_def resolve_workspaceDir_def)
  from missing_memory_directory[OF e, of "example_env [] []"] r
  have "fst (bootstrapSession (example_env [] []) (example_event (Some 0)) example_world) = Inr ()
      \<and> get_prop (snd (bootstrapSession (example_env [] []) (example_event (Some 0)) example_world))
          0 ''hasMemory'' = JBool True
      \<and> get_prop (snd (bootstrapSession (example_env [] []) (example_event (Some 0)) example_world))
          0 ''memoryContext'' = JStr []"
    by blast
  then show ?thesis using e r by blast
qed

text \<open>
  Claim C10. For an admitted event without a context the handler writes into a fresh
  object: every object that existed before the call is unchanged, the store has grown by
  one object, and when the \<open>try\<close> block completes the handler completes and that new object
  carries \<open>hasMemory\<close> and \<open>memoryContext\<close>. The handler does not reject as long as whatever
  the \<open>try\<close> block throws has a string form.
\<close>

theorem null_context_writes_local_object:
  assumes "ev_type ev = ''agent''" and "ev_action ev = ''bootstrap''"
    and "ev_context ev = None"
  shows "((\<forall>x. fst (try_block env ev w) = Inl x \<longrightarrow> (\<exists>s. String_of x = Inr s)) \<longrightarrow>
            fst (bootstrapSession env ev w) = Inr ())
       \<and> take (length (heap w)) (heap (snd (bootstrapSession env ev w))) = heap w
       \<and> length (heap (snd (bootstrapSession env ev w))) = Suc (length (heap w))
       \<and> (fst (try_block env ev w) = Inr () \<longrightarrow>
            fst (bootstrapSession env ev w) = Inr ()
          \<and> get_prop (snd (bootstrapSession env ev w)) (length (heap w)) ''hasMemory'' = JBool True
          \<and> (\<exists>s. get_prop (snd (bootstrapSession env ev w)) (length (heap w)) ''memoryContext''
                    = JStr s))"
proof -
  let ?w' = "snd (bootstrapSession env ev w)"
  let ?c = "fst (context_or_new ev w)"
  let ?w2 = "snd (context_or_new ev w)"
  have c: "?c = length (heap w)" and h2: "heap ?w2 = heap w @ [Map.empty]"
    using assms(3) by (simp_all add: fst_context_or_new heap_context_or_new)
  have hb: "heap ?w' = heap (snd (try_block env ev w))"
    using assms(1,2) by (rule bootstrapSession_heap)
  have r: "(\<forall>x. fst (try_block env ev w) = Inl x \<longrightarrow> (\<exists>s. String_of x = Inr s)) \<longrightarrow>
            fst (bootstrapSession env ev w) = Inr ()"
    using handler_catches_printable[OF assms(1,2)] by blast
  show ?thesis
  proof (cases "fst (try_block env ev w)")
    case (Inl e)
    have "heap ?w' = heap w @ [Map.empty]"
      using hb try_block_failure[OF Inl] h2 by simp
    then have "take (length (heap w)) (heap ?w') = heap w"
      and "length (heap ?w') = Suc (length (heap w))"
      by simp_all
    moreover have "fst (try_block env ev w) \<noteq> Inr ()" using Inl by simp
    ultimately show ?thesis using r by blast
  next
    case (Inr u)
    have bs: "fst (bootstrapSession env ev w) = Inr ()"
      using bootstrapSession_admitted(1)[OF assms(1,2) Inr] by simp
    from try_block_completes[OF Inr] obtain agentId ws md where
      a: "resolveAgentIdFromSessionKey env (ev_sessionKey ev) = Inr agentId" and
      b: "resolve_workspaceDir env (get_prop ?w2 ?c ''cfg'') agentId = Inr ws" and
      d: "path_join env [ws, ''memory''] = Inr md"
      by blast
    let ?s = "fullContext_of (fst (getUserProfile env ws w)) (fst (getActiveContext env ws w))
                (fst (getRecentMemories env md (Some 3) w))"
    let ?w9 = "set_prop ?c ''hasMemory'' (JBool True) (set_prop ?c ''memoryContext'' (JStr ?s) ?w2)"
    have h: "heap ?w' = heap ?w9"
      unfolding hb by (rule try_block_resolved(2)[OF a b d])
    have lt: "?c < length (heap ?w2)" by (simp add: c h2)
    have p1: "get_prop ?w' (length (heap w)) ''hasMemory'' = JBool True"
      using published_props(1)[OF lt, of ?s] get_prop_heap_cong[OF h] c by simp
    have p2: "get_prop ?w' (length (heap w)) ''memoryContext'' = JStr ?s"
      using published_props(2)[OF lt, of ?s] get_prop_heap_cong[OF h] c by simp
    have "take (length (heap w)) (heap ?w9) = take (length (heap w)) (heap ?w2)"
      by (rule published_prefix) (simp add: c)
    then have p3: "take (length (heap w)) (heap ?w') = heap w"
      by (simp add: h h2)
    have p4: "length (heap ?w') = Suc (length (heap w))"
      by (simp add: h h2)
    show ?thesis using r bs p1 p2 p3 p4 by blast
  qed
qed

theorem null_context_writes_local_object_witness:
  "ev_type (example_event None) = ''agent''
   \<and> ev_action (example_event None) = ''bootstrap''
   \<and> ev_context (example_event None) = None
   \<and> fst (try_block (example_env [] []) (example_event None) example_world) = Inr ()
   \<and> take 1 (heap (snd (bootstrapSession (example_env [] []) (example_event None) example_world)))
       = heap example_world
   \<and> get_prop (snd (bootstrapSession (example_env [] []) (example_event None) example_world))
       1 ''hasMemory'' = JBool True"
proof -
  have t: "fst (try_block (example_env [] []) (example_event None) example_world) = Inr ()"
    by (rule try_block_resolved(1)[where agentId = "''main''" and ws = "''/state/workspace''"
          and md = "''/state/workspace/memory''"])
       (simp_all add: example_env_def example_event_def example_world_def context_or_new_def
          new_object_def get_prop_def resolve_workspaceDir_def)
  have l: "length (heap example_world) = 1" by (simp add: example_world_def)
  show ?thesis
    using t l null_context_writes_local_object
      [of "example_event None" "example_env [] []" example_world]
    by (simp add: example_event_def)
qed

section \<open>Independence of the three reads\<close>

text \<open>
  Against Claim C7 as stated: the profile and the active context are readable but empty,
  the one dated file is unreadable, and the published \<open>memoryContext\<close> is empty.
\<close>

theorem empty_sources_counterexample:
  "readdir (example_env [(''/state/workspace/memory'', [''2024-03-15-b.md''])]
         [(''/state/workspace/memory/jeeves-profile.md'', []),
          (''/state/workspace/memory/active-context.md'', [])]) ''/state/workspace/memory''
     = Inr [''2024-03-15-b.md'']
   \<and> readFile (example_env [(''/state/workspace/memory'', [''2024-03-15-b.md''])]
         [(''/state/workspace/memory/jeeves-profile.md'', []),
          (''/state/workspace/memory/active-context.md'', [])])
         ''/state/workspace/memory/2024-03-15-b.md'' = Inl (Exn ''ENOENT'')
   \<and> readFile (example_env [(''/state/workspace/memory'', [''2024-03-15-b.md''])]
         [(''/state/workspace/memory/jeeves-profile.md'', []),
          (''/state/workspace/memory/active-context.md'', [])])
         ''/state/workspace/memory/jeeves-profile.md'' = Inr []
   \<and> readFile (example_env [(''/state/workspace/memory'', [''2024-03-15-b.md''])]
         [(''/state/workspace/memory/jeeves-profile.md'', []),
          (''/state/workspace/memory/active-context.md'', [])])
         ''/state/workspace/memory/active-context.md'' = Inr []
   \<and> get_prop (snd (bootstrapSession
         (example_env [(''/state/workspace/memory'', [''2024-03-15-b.md''])]
           [(''/state/workspace/memory/jeeves-profile.md'', []),
            (''/state/workspace/memory/active-context.md'', [])])
         (example_event (Some 0)) example_world)) 0 ''memoryContext'' = JStr []"
  by code_simp

text \<open>
  Claim C7, amended. With the workspace resolved, the handler completes and publishes the
  text assembled from the three results, each as its reader returns it in any world: no
  read depends on what the others did. The profile and the active context are decided by
  their own file alone. When the recent-memories read fails, because the directory cannot
  be listed or because a selected dated file cannot be read, the recent memories are
  empty and the text is built from the profile and the active context alone. The
  published text is non-empty as soon as the profile or the active context has non-empty
  content.
\<close>

theorem reads_are_failure_independent:
  assumes "ev_type ev = ''agent''" and "ev_action ev = ''bootstrap''"
    and "ev_context ev = Some a" and "a < length (heap w)"
    and "resolveAgentIdFromSessionKey env (ev_sessionKey ev) = Inr agentId"
    and "resolve_workspaceDir env (get_prop w a ''cfg'') agentId = Inr ws"
    and "path_join env [ws, ''memory''] = Inr md"
  shows "fst (bootstrapSession env ev w) = Inr ()
       \<and> (\<forall>w1 w2 w3.
            get_prop (snd (bootstrapSession env ev w)) a ''memoryContext'' =
              JStr (fullContext_of (fst (getUserProfile env ws w1))
                      (fst (getActiveContext env ws w2))
                      (fst (getRecentMemories env md (Some 3) w3))))
       \<and> fst (getUserProfile env ws w) =
           (case path_join env [ws, ''memory'', ''jeeves-profile.md''] of
              Inl e \<Rightarrow> None
            | Inr p \<Rightarrow> (case readFile env p of Inl e \<Rightarrow> None | Inr t \<Rightarrow> Some t))
       \<and> fst (getActiveContext env ws w) =
           (case path_join env [ws, ''memory'', ''active-context.md''] of
              Inl e \<Rightarrow> None
            | Inr p \<Rightarrow> (case readFile env p of Inl e \<Rightarrow> None | Inr t \<Rightarrow> Some t))
       \<and> ((\<exists>e. readdir env md = Inl e) \<or>
          (\<exists>files f. readdir env md = Inr files \<and> f \<in> set (mdFiles files 3) \<and>
             (\<forall>p t. path_join env [md, f] = Inr p \<longrightarrow> readFile env p \<noteq> Inr t))
          \<longrightarrow> fst (getRecentMemories env md (Some 3) w) = []
            \<and> get_prop (snd (bootstrapSession env ev w)) a ''memoryContext'' =
                JStr (fullContext_of (fst (getUserProfile env ws w))
                        (fst (getActiveContext env ws w)) [])
            \<and> (get_prop (snd (bootstrapSession env ev w)) a ''memoryContext'' = JStr [] \<longleftrightarrow>
                 \<not> str_truthy (fst (getUserProfile env ws w)) \<and>
                 \<not> str_truthy (fst (getActiveContext env ws w))))
       \<and> (str_truthy (fst (getUserProfile env ws w)) \<or>
          str_truthy (fst (getActiveContext env ws w))
          \<longrightarrow> get_prop (snd (bootstrapSession env ev w)) a ''memoryContext'' \<noteq> JStr [])"
proof -
  let ?mc = "get_prop (snd (bootstrapSession env ev w)) a ''memoryContext''"
  let ?up = "fst (getUserProfile env ws w)"
  let ?ac = "fst (getActiveContext env ws w)"
  let ?rm = "fst (getRecentMemories env md (Some 3) w)"
  have t: "fst (try_block env ev w) = Inr ()"
    by (rule handler_publishes(1)[OF assms])
  have 1: "fst (bootstrapSession env ev w) = Inr ()"
    using bootstrapSession_admitted(1)[OF assms(1,2) t] by simp
  have m: "?mc = JStr (fullContext_of ?up ?ac ?rm)"
    by (rule handler_publishes(3)[OF assms])
  have 2: "\<forall>w1 w2 w3. ?mc =
              JStr (fullContext_of (fst (getUserProfile env ws w1))
                      (fst (getActiveContext env ws w2))
                      (fst (getRecentMemories env md (Some 3) w3)))"
  proof (intro allI)
    fix w1 w2 w3
    have "fst (getUserProfile env ws w1) = ?up" by (rule fst_getUserProfile_indep)
    moreover have "fst (getActiveContext env ws w2) = ?ac" by (rule fst_getActiveContext_indep)
    moreover have "fst (getRecentMemories env md (Some 3) w3) = ?rm"
      by (rule fst_getRecentMemories_indep)
    ultimately show "?mc =
              JStr (fullContext_of (fst (getUserProfile env ws w1))
                      (fst (getActiveContext env ws w2))
                      (fst (getRecentMemories env md (Some 3) w3)))"
      using m by simp
  qed
  have 3: "?up =
           (case path_join env [ws, ''memory'', ''jeeves-profile.md''] of
              Inl e \<Rightarrow> None
            | Inr p \<Rightarrow> (case readFile env p of Inl e \<Rightarrow> None | Inr t \<Rightarrow> Some t))"
    by (rule fst_getUserProfile)
  have 4: "?ac =
           (case path_join env [ws, ''memory'', ''active-context.md''] of
              Inl e \<Rightarrow> None
            | Inr p \<Rightarrow> (case readFile env p of Inl e \<Rightarrow> None | Inr t \<Rightarrow> Some t))"
    by (rule fst_getActiveContext)
  have 5: "(\<exists>e. readdir env md = Inl e) \<or>
          (\<exists>files f. readdir env md = Inr files \<and> f \<in> set (mdFiles files 3) \<and>
             (\<forall>p t. path_join env [md, f] = Inr p \<longrightarrow> readFile env p \<noteq> Inr t))
          \<longrightarrow> ?rm = []
            \<and> ?mc = JStr (fullContext_of ?up ?ac [])
            \<and> (?mc = JStr [] \<longleftrightarrow> \<not> str_truthy ?up \<and> \<not> str_truthy ?ac)"
  proof
    assume "(\<exists>e. readdir env md = Inl e) \<or>
          (\<exists>files f. readdir env md = Inr files \<and> f \<in> set (mdFiles files 3) \<and>
             (\<forall>p t. path_join env [md, f] = Inr p \<longrightarrow> readFile env p \<noteq> Inr t))"
    then have r: "?rm = []" by (rule getRecentMemories_fails)
    then have e: "?mc = JStr (fullContext_of ?up ?ac [])" using m by simp
    have "?mc = JStr [] \<longleftrightarrow> \<not> str_truthy ?up \<and> \<not> str_truthy ?ac"
      unfolding e by (simp add: fullContext_empty_iff)
    with r e show "?rm = []
            \<and> ?mc = JStr (fullContext_of ?up ?ac [])
            \<and> (?mc = JStr [] \<longleftrightarrow> \<not> str_truthy ?up \<and> \<not> str_truthy ?ac)"
      by (intro conjI)
  qed
  have 6: "str_truthy ?up \<or> str_truthy ?ac \<longrightarrow> ?mc \<noteq> JStr []"
  proof
    assume "str_truthy ?up \<or> str_truthy ?ac"
    then have "fullContext_of ?up ?ac ?rm \<noteq> []" by (rule fullContext_nonempty)
    then show "?mc \<noteq> JStr []" unfolding m by simp
  qed
  show ?thesis by (intro conjI) (rule 1, rule 2, rule 3, rule 4, rule 5, rule 6)
qed

theorem reads_are_failure_independent_witness:
  "readdir (example_env [(''/state/workspace/memory'', [''2024-03-15-b.md''])]
         [(''/state/workspace/memory/jeeves-profile.md'', ''likes tea''),
          (''/state/workspace/memory/active-context.md'', ''ship it'')])
      ''/state/workspace/memory'' = Inr [''2024-03-15-b.md'']
   \<and> readFile (example_env [(''/state/workspace/memory'', [''2024-03-15-b.md''])]
         [(''/state/workspace/memory/jeeves-profile.md'', ''likes tea''),
          (''/state/workspace/memory/active-context.md'', ''ship it'')])
         ''/state/workspace/memory/2024-03-15-b.md'' = Inl (Exn ''ENOENT'')
   \<and> fst (getRecentMemories (example_env [(''/state/workspace/memory'', [''2024-03-15-b.md''])]
         [(''/state/workspace/memory/jeeves-profile.md'', ''likes tea''),
          (''/state/workspace/memory/active-context.md'', ''ship it'')])
         ''/state/workspace/memory'' (Some 3) example_world) = []
   \<and> get_prop (snd (bootstrapSession
         (example_env [(''/state/workspace/memory'', [''2024-03-15-b.md''])]
           [(''/state/workspace/memory/jeeves-profile.md'', ''likes tea''),
            (''/state/workspace/memory/active-context.md'', ''ship it'')])
         (example_event (Some 0)) example_world)) 0 ''memoryContext''
       = JStr (fullContext_of (Some ''likes tea'') (Some ''ship it'') [])
   \<and> get_prop (snd (bootstrapSession
         (example_env [(''/state/workspace/memory'', [''2024-03-15-b.md''])]
           [(''/state/workspace/memory/jeeves-profile.md'', ''likes tea''),
            (''/state/workspace/memory/active-context.md'', ''ship it'')])
         (example_event (Some 0)) example_world)) 0 ''memoryContext'' \<noteq> JStr []
   \<and> readdir (example_env [] [(''/state/workspace/memory/jeeves-profile.md'', ''likes tea'')])
         ''/state/workspace/memory'' = Inl (Exn ''ENOENT'')
   \<and> get_prop (snd (bootstrapSession
         (example_env [] [(''/state/workspace/memory/jeeves-profile.md'', ''likes tea'')])
         (example_event (Some 0)) example_world)) 0 ''memoryContext''
       = JStr (fullContext_of (Some ''likes tea'') None [])
   \<and> get_prop (snd (bootstrapSession
         (example_env [] [(''/state/workspace/memory/jeeves-profile.md'', ''likes tea'')])
         (example_event (Some 0)) example_world)) 0 ''memoryContext'' \<noteq> JStr []"
proof -
  let ?env1 = "example_env [(''/state/workspace/memory'', [''2024-03-15-b.md''])]
           [(''/state/workspace/memory/jeeves-profile.md'', ''likes tea''),
            (''/state/workspace/memory/active-context.md'', ''ship it'')]"
  let ?env2 = "example_env [] [(''/state/workspace/memory/jeeves-profile.md'', ''likes tea'')]"
  let ?ev = "example_event (Some 0)"
  have e: "ev_type ?ev = ''agent''" "ev_action ?ev = ''bootstrap''" "ev_context ?ev = Some 0"
    "0 < length (heap example_world)"
    by (simp_all add: example_event_def example_world_def)
  have r1: "resolveAgentIdFromSessionKey ?env1 (ev_sessionKey ?ev) = Inr ''main''"
    "resolve_workspaceDir ?env1 (get_prop example_world 0 ''cfg'') ''main'' = Inr ''/state/workspace''"
    "path_join ?env1 [''/state/workspace'', ''memory''] = Inr ''/state/workspace/memory''"
    by (simp_all add: example_env_def example_world_def get_prop_def resolve_workspaceDir_def)
  have r2: "resolveAgentIdFromSessionKey ?env2 (ev_sessionKey ?ev) = Inr ''main''"
    "resolve_workspaceDir ?env2 (get_prop example_world 0 ''cfg'') ''main'' = Inr ''/state/workspace''"
    "path_join ?env2 [''/state/workspace'', ''memory''] = Inr ''/state/workspace/memory''"
    by (simp_all add: example_env_def example_world_def get_prop_def resolve_workspaceDir_def)
  note T1 = reads_are_failure_independent[OF e r1]
  note T2 = reads_are_failure_independent[OF e r2]
  have l1: "readdir ?env1 ''/state/workspace/memory'' = Inr [''2024-03-15-b.md'']"
    by (simp add: example_env_def)
  have s1: "''2024-03-15-b.md'' \<in> set (mdFiles [''2024-03-15-b.md''] 3)"
    by code_simp
  have d1: "readFile ?env1 ''/state/workspace/memory/2024-03-15-b.md'' = Inl (Exn ''ENOENT'')"
    by (simp add: example_env_def)
  have u1: "\<forall>p t. path_join ?env1 [''/state/workspace/memory'', ''2024-03-15-b.md''] = Inr p
              \<longrightarrow> readFile ?env1 p \<noteq> Inr t"
    by (simp add: example_env_def)
  have f1: "(\<exists>e. readdir ?env1 ''/state/workspace/memory'' = Inl e) \<or>
          (\<exists>files f. readdir ?env1 ''/state/workspace/memory'' = Inr files \<and>
             f \<in> set (mdFiles files 3) \<and>
             (\<forall>p t. path_join ?env1 [''/state/workspace/memory'', f] = Inr p
                \<longrightarrow> readFile ?env1 p \<noteq> Inr t))"
    by (rule disjI2, rule exI[of _ "[''2024-03-15-b.md'']"], rule exI[of _ "''2024-03-15-b.md''"],
        intro conjI) (rule l1, rule s1, rule u1)
  have l2: "readdir ?env2 ''/state/workspace/memory'' = Inl (Exn ''ENOENT'')"
    by (simp add: example_env_def)
  have f2: "(\<exists>e. readdir ?env2 ''/state/workspace/memory'' = Inl e) \<or>
          (\<exists>files f. readdir ?env2 ''/state/workspace/memory'' = Inr files \<and>
             f \<in> set (mdFiles files 3) \<and>
             (\<forall>p t. path_join ?env2 [''/state/workspace/memory'', f] = Inr p
                \<longrightarrow> readFile ?env2 p \<noteq> Inr t))"
    by (rule disjI1, rule exI[of _ "Exn ''ENOENT''"], rule l2)
  have p1: "fst (getUserProfile ?env1 ''/state/workspace'' example_world) = Some ''likes tea''"
    "fst (getActiveContext ?env1 ''/state/workspace'' example_world) = Some ''ship it''"
    by code_simp+
  have p2: "fst (getUserProfile ?env2 ''/state/workspace'' example_world) = Some ''likes tea''"
    "fst (getActiveContext ?env2 ''/state/workspace'' example_world) = None"
    by code_simp+
  note R1 = T1[THEN conjunct2, THEN conjunct2, THEN conjunct2, THEN conjunct2, THEN conjunct1,
               THEN mp, OF f1]
  note R2 = T2[THEN conjunct2, THEN conjunct2, THEN conjunct2, THEN conjunct2, THEN conjunct1,
               THEN mp, OF f2]
  have a1: "fst (getRecentMemories ?env1 ''/state/workspace/memory'' (Some 3) example_world) = []"
    by (rule R1[THEN conjunct1])
  have a2: "get_prop (snd (bootstrapSession ?env1 ?ev example_world)) 0 ''memoryContext''
       = JStr (fullContext_of (Some ''likes tea'') (Some ''ship it'') [])"
    using R1[THEN conjunct2, THEN conjunct1] unfolding p1 .
  have a3: "get_prop (snd (bootstrapSession ?env1 ?ev example_world)) 0 ''memoryContext''
       \<noteq> JStr []"
    by (rule T1[THEN conjunct2, THEN conjunct2, THEN conjunct2, THEN conjunct2, THEN conjunct2,
                THEN mp]) (simp add: p1)
  have b2: "get_prop (snd (bootstrapSession ?env2 ?ev example_world)) 0 ''memoryContext''
       = JStr (fullContext_of (Some ''likes tea'') None [])"
    using R2[THEN conjunct2, THEN conjunct1] unfolding p2 .
  have b3: "get_prop (snd (bootstrapSession ?env2 ?ev example_world)) 0 ''memoryContext''
       \<noteq> JStr []"
    by (rule T2[THEN conjunct2, THEN conjunct2, THEN conjunct2, THEN conjunct2, THEN conjunct2,
                THEN mp]) (simp add: p2)
  show ?thesis
    by (intro conjI) (rule l1, rule d1, rule a1, rule a2, rule a3, rule l2, rule b2, rule b3)
qed

section \<open>The assembled text\<close>

text \<open>
  Against Claim C4 as stated: the profile file is readable and empty; the read returns
  its content, not \<open>null\<close>, yet no part is pushed and the published text is empty.
\<close>

theorem empty_profile_counterexample:
  "fst (getUserProfile (example_env [] [(''/state/workspace/memory/jeeves-profile.md'', [])])
          ''/state/workspace'' example_world) = Some []
   \<and> contextParts_of (Some []) None [] = []
   \<and> get_prop (snd (bootstrapSession
         (example_env [] [(''/state/workspace/memory/jeeves-profile.md'', [])])
         (example_event (Some 0)) example_world)) 0 ''memoryContext'' = JStr []"
  by code_simp

text \<open>
  Claim C4, amended. The parts are a profile section, an active-context section and a
  recent-memories section, in this order; the profile (active-context) section is there
  iff the read returned non-empty content, the recent-memories section iff there is at
  least one entry; a section that is there is its heading, the truncated content and an
  empty line.
\<close>

theorem sections_iff_sources_nonempty:
  "\<exists>P A R.
     contextParts_of p a ms = P @ A @ R
   \<and> fullContext_of p a ms = js_join (P @ A @ R) [CHR 0x0A]
   \<and> (P \<noteq> [] \<longleftrightarrow> (\<exists>s. p = Some s \<and> s \<noteq> []))
   \<and> (\<forall>s. p = Some s \<and> s \<noteq> [] \<longrightarrow> P = [''## User Profile (Jeeves)'', take 1000 s, []])
   \<and> (A \<noteq> [] \<longleftrightarrow> (\<exists>s. a = Some s \<and> s \<noteq> []))
   \<and> (\<forall>s. a = Some s \<and> s \<noteq> [] \<longrightarrow> A = [''## Active Context'', take 1000 s, []])
   \<and> (R \<noteq> [] \<longleftrightarrow> ms \<noteq> [])
   \<and> (ms \<noteq> [] \<longrightarrow>
        R = ''## Recent Conversations'' #
              concat (map (\<lambda>m. [''### '' @ filename m, take 500 (content m), []]) ms))"
proof -
  let ?P = "case p of None \<Rightarrow> [] | Some s \<Rightarrow>
        if s = [] then [] else [''## User Profile (Jeeves)'', take 1000 s, []]"
  let ?A = "case a of None \<Rightarrow> [] | Some s \<Rightarrow>
        if s = [] then [] else [''## Active Context'', take 1000 s, []]"
  let ?R = "if ms = [] then []
      else ''## Recent Conversations'' #
             concat (map (\<lambda>m. [''### '' @ filename m, take 500 (content m), []]) ms)"
  have 1: "contextParts_of p a ms = ?P @ ?A @ ?R" by (rule contextParts_closed)
  have 2: "fullContext_of p a ms = js_join (?P @ ?A @ ?R) [CHR 0x0A]"
    unfolding fullContext_of_def 1 ..
  have 3: "?P \<noteq> [] \<longleftrightarrow> (\<exists>s. p = Some s \<and> s \<noteq> [])" by (cases p) auto
  have 4: "\<forall>s. p = Some s \<and> s \<noteq> [] \<longrightarrow> ?P = [''## User Profile (Jeeves)'', take 1000 s, []]"
    by auto
  have 5: "?A \<noteq> [] \<longleftrightarrow> (\<exists>s. a = Some s \<and> s \<noteq> [])" by (cases a) auto
  have 6: "\<forall>s. a = Some s \<and> s \<noteq> [] \<longrightarrow> ?A = [''## Active Context'', take 1000 s, []]"
    by auto
  have 7: "?R \<noteq> [] \<longleftrightarrow> ms \<noteq> []" by simp
  have 8: "ms \<noteq> [] \<longrightarrow> ?R = ''## Recent Conversations'' #
              concat (map (\<lambda>m. [''### '' @ filename m, take 500 (content m), []]) ms)"
    by simp
  show ?thesis
    by (rule exI[of _ ?P], rule exI[of _ ?A], rule exI[of _ ?R]) (use 1 2 3 4 5 6 7 8 in blast)
qed

theorem sections_iff_sources_nonempty_witness:
  "contextParts_of (Some ''likes tea'') (Some []) [] =
     [''## User Profile (Jeeves)'', ''likes tea'', []]"
  using sections_iff_sources_nonempty[of "Some ''likes tea''" "Some []" "[]"]
  by (elim exE conjE) simp



text \<open>
  Claim C9. The assembled text is the profile section, then the active-context section,
  then the recent-memories heading with one block per entry in the order of the entries;
  the entries that \<open>getRecentMemories\<close> returns are in descending order of file name, the
  most recent first.
\<close>

theorem section_order:
  "fullContext_of p a ms =
     js_join (contextParts_of p None [] @ contextParts_of None a [] @ contextParts_of None None ms)
       [CHR 0x0A]
   \<and> contextParts_of p None [] =
       (case p of None \<Rightarrow> [] | Some s \<Rightarrow>
          if s = [] then [] else [''## User Profile (Jeeves)'', take 1000 s, []])
   \<and> contextParts_of None a [] =
       (case a of None \<Rightarrow> [] | Some s \<Rightarrow>
          if s = [] then [] else [''## Active Context'', take 1000 s, []])
   \<and> contextParts_of None None ms =
       (if ms = [] then []
        else ''## Recent Conversations'' #
               concat (map (\<lambda>m. [''### '' @ filename m, take 500 (content m), []]) ms))
   \<and> sorted_wrt (\<lambda>x y. filename y \<le> filename x) (fst (getRecentMemories env d c w))"
proof (intro conjI)
  show 1: "contextParts_of p None [] =
       (case p of None \<Rightarrow> [] | Some s \<Rightarrow>
          if s = [] then [] else [''## User Profile (Jeeves)'', take 1000 s, []])"
    by (simp add: contextParts_closed)
  show 2: "contextParts_of None a [] =
       (case a of None \<Rightarrow> [] | Some s \<Rightarrow>
          if s = [] then [] else [''## Active Context'', take 1000 s, []])"
    by (simp add: contextParts_closed)
  show 3: "contextParts_of None None ms =
       (if ms = [] then []
        else ''## Recent Conversations'' #
               concat (map (\<lambda>m. [''### '' @ filename m, take 500 (content m), []]) ms))"
    by (simp add: contextParts_closed)
  have "contextParts_of p a ms =
          contextParts_of p None [] @ contextParts_of None a [] @ contextParts_of None None ms"
    unfolding 1 2 3 by (rule contextParts_closed)
  then show "fullContext_of p a ms =
     js_join (contextParts_of p None [] @ contextParts_of None a [] @ contextParts_of None None ms)
       [CHR 0x0A]"
    by (simp only: fullContext_of_def)
  show "sorted_wrt (\<lambda>x y. filename y \<le> filename x) (fst (getRecentMemories env d c w))"
    by (rule getRecentMemories_descending)
qed

theorem section_order_witness:
  "fullContext_of (Some ''P'') (Some ''Q'')
     [\<lparr>date = Some ''2024'', content = ''B'', filename = ''2024-03-15-b.md''\<rparr>,
      \<lparr>date = Some ''2024'', content = ''A'', filename = ''2024-01-01-a.md''\<rparr>]
   = js_join [''## User Profile (Jeeves)'', ''P'', [], ''## Active Context'', ''Q'', [],
              ''## Recent Conversations'', ''### 2024-03-15-b.md'', ''B'', [],
              ''### 2024-01-01-a.md'', ''A'', []] [CHR 0x0A]
   \<and> map filename (fst (getRecentMemories
         (example_env [(''/m'', [''2024-01-01-a.md'', ''2024-03-15-b.md'', ''notes.txt''])]
            [(''/m/2024-01-01-a.md'', ''A''), (''/m/2024-03-15-b.md'', ''B'')])
         ''/m'' None example_world))
     = [''2024-03-15-b.md'', ''2024-01-01-a.md'']"
proof -
  have r: "map filename (fst (getRecentMemories
         (example_env [(''/m'', [''2024-01-01-a.md'', ''2024-03-15-b.md'', ''notes.txt''])]
            [(''/m/2024-01-01-a.md'', ''A''), (''/m/2024-03-15-b.md'', ''B'')])
         ''/m'' None example_world))
     = [''2024-03-15-b.md'', ''2024-01-01-a.md'']"
    by code_simp
  show ?thesis
    using r section_order
      [of "Some ''P''" "Some ''Q''"
          "[\<lparr>date = Some ''2024'', content = ''B'', filename = ''2024-03-15-b.md''\<rparr>,
            \<lparr>date = Some ''2024'', content = ''A'', filename = ''2024-01-01-a.md''\<rparr>]"
          "example_env [(''/m'', [''2024-01-01-a.md'', ''2024-03-15-b.md'', ''notes.txt''])]
            [(''/m/2024-01-01-a.md'', ''A''), (''/m/2024-03-15-b.md'', ''B'')]"
          "''/m''" None example_world]
    by simp
qed

end
